theory Spec2Isabelle
  imports
    Main
    "HOL-Library.Word"
    "HOL-Library.Multiset"
    "HOL-Library.Char_ord"
    "HOL-Library.List_Lexorder"
    "HOL-Library.Product_Lexorder"
begin

section \<open>Statistics and ranking of the livestreaming backend\<close>

text \<open>
  This theory embeds \<^verbatim>\<open>go/stats_handler.go\<close> (the two statistics handlers with their
  ranking comparators) and the response assembly of \<^verbatim>\<open>getReactionsHandler\<close> in
  \<^verbatim>\<open>go/reaction_handler.go\<close>.

  Conventions.
  \<^item> Go's \<^verbatim>\<open>int64\<close> is \<open>64 word\<close>: \<open>+\<close> wraps, and the signed comparison
    \<^verbatim>\<open>a < b\<close> of Go is \<open>sint a < sint b\<close>.
  \<^item> Go's \<^verbatim>\<open>string\<close> is \<open>string\<close> (a list of bytes) and Go's \<^verbatim>\<open><\<close> on strings
    is the byte-wise lexicographic order of \<^verbatim>\<open>List_Lexorder\<close> over \<^verbatim>\<open>Char_ord\<close>.
  \<^item> Field names of different structs clash in one theory, so every record field carries
    a short prefix of its struct (\<open>ure_Score\<close> is \<^verbatim>\<open>UserRankingEntry.Score\<close>).
  \<^item> The rank counter \<^verbatim>\<open>rank\<close> is a \<open>nat\<close>: it is incremented at most once per
    element of a slice, whose length is below \<open>2^63\<close>, so the \<^verbatim>\<open>int64\<close> never wraps.
\<close>

type_synonym int64 = "64 word"

subsection \<open>Errors\<close>

text \<open>
  \<^verbatim>\<open>echo.NewHTTPError(status, message)\<close> becomes \<open>HTTPError status message\<close>; a Go run-time
  panic becomes \<open>Panic message\<close>.
\<close>

datatype error = HTTPError nat string | Panic string

subsection \<open>Ranking entries and their comparators\<close>

record LivestreamRankingEntry =
  lre_LivestreamID :: int64
  lre_Score :: int64

record UserRankingEntry =
  ure_Username :: string
  ure_Score :: int64

text \<open>
  \<^verbatim>\<open>func (r LivestreamRanking) Less(i, j int) bool\<close> and
  \<^verbatim>\<open>func (r UserRanking) Less(i, j int) bool\<close>, on the two elements \<^verbatim>\<open>r[i]\<close> and \<^verbatim>\<open>r[j]\<close>.
\<close>

definition LivestreamRanking_Less :: "LivestreamRankingEntry \<Rightarrow> LivestreamRankingEntry \<Rightarrow> bool" where
  "LivestreamRanking_Less a b =
     (if lre_Score a = lre_Score b
      then sint (lre_LivestreamID a) < sint (lre_LivestreamID b)
      else sint (lre_Score a) < sint (lre_Score b))"

definition UserRanking_Less :: "UserRankingEntry \<Rightarrow> UserRankingEntry \<Rightarrow> bool" where
  "UserRanking_Less a b =
     (if ure_Score a = ure_Score b
      then ure_Username a < ure_Username b
      else sint (ure_Score a) < sint (ure_Score b))"

subsection \<open>\<^verbatim>\<open>sort.Sort\<close>\<close>

text \<open>
  \<^verbatim>\<open>sort.Sort(ranking)\<close> sorts the slice in ascending order of its \<^verbatim>\<open>Less\<close>. The library
  routine is not stable, but both comparators are total on entries (two entries that
  neither is \<^verbatim>\<open>Less\<close> than the other are equal in every field), so the sorted slice is
  determined by the multiset of entries alone: the lemmas \<open>UserRanking_sort_unique\<close> and
  \<open>LivestreamRanking_sort_unique\<close> below show that every ascending rearrangement is the one
  computed here. The model is an insertion sort
  driven by the comparator.
\<close>

fun sort_insert :: "('e \<Rightarrow> 'e \<Rightarrow> bool) \<Rightarrow> 'e \<Rightarrow> 'e list \<Rightarrow> 'e list" where
  "sort_insert lt x [] = [x]"
| "sort_insert lt x (y # ys) =
     (if lt y x then y # sort_insert lt x ys else x # y # ys)"

fun sort_Sort :: "('e \<Rightarrow> 'e \<Rightarrow> bool) \<Rightarrow> 'e list \<Rightarrow> 'e list" where
  "sort_Sort lt [] = []"
| "sort_Sort lt (x # xs) = sort_insert lt x (sort_Sort lt xs)"

subsection \<open>The backward scan\<close>

text \<open>
  \<^verbatim>\<open>
  var rank int64 = 1
  for i := len(ranking) - 1; i >= 0; i-- {
      entry := ranking[i]
      if entry.Username == username { break }
      rank++
  }
  \<close>
  The first argument is the test of the \<^verbatim>\<open>if\<close>; the third is \<open>i + 1\<close>, the number of
  elements not yet visited, so that \<open>ranking ! i\<close> is always in range.
\<close>

fun rankLoop :: "('e \<Rightarrow> bool) \<Rightarrow> 'e list \<Rightarrow> nat \<Rightarrow> nat \<Rightarrow> nat" where
  "rankLoop found ranking 0 rank = rank"
| "rankLoop found ranking (Suc i) rank =
     (if found (ranking ! i) then rank else rankLoop found ranking i (rank + 1))"

definition userRankScan :: "UserRankingEntry list \<Rightarrow> string \<Rightarrow> nat" where
  "userRankScan ranking username =
     rankLoop (\<lambda>entry. ure_Username entry = username) ranking (length ranking) 1"

definition livestreamRankScan :: "LivestreamRankingEntry list \<Rightarrow> int64 \<Rightarrow> nat" where
  "livestreamRankScan ranking livestreamID =
     rankLoop (\<lambda>entry. lre_LivestreamID entry = livestreamID) ranking (length ranking) 1"

subsection \<open>Score maps\<close>

text \<open>
  \<^verbatim>\<open>userScore := map[int64]int64{}\<close>. Reading a key that is absent gives the zero value.
\<close>

type_synonym scoreMap = "int64 \<rightharpoonup> int64"

definition getScore :: "scoreMap \<Rightarrow> int64 \<Rightarrow> int64" where
  "getScore m k = (case m k of None \<Rightarrow> 0 | Some v \<Rightarrow> v)"

text \<open>
  The rows of the two aggregate queries. Each handler declares its own local
  \<^verbatim>\<open>ReactionCount\<close> and \<^verbatim>\<open>TotalTip\<close> struct; they differ only in the name of the id field.
\<close>

record UserReactionCount =
  urc_UserID :: int64
  urc_ReactionCount :: int64

record UserTotalTip =
  utt_UserID :: int64
  utt_TotalTip :: int64

record LivestreamReactionCount =
  lrc_LivestreamID :: int64
  lrc_ReactionCount :: int64

record LivestreamTotalTip =
  ltt_LivestreamID :: int64
  ltt_TotalTip :: int64

text \<open>
  \<^verbatim>\<open>
  for _, rc := range reactionCounts {
      userScore[rc.UserID] = rc.ReactionCount
      if rc.UserID == user.ID { userTotalReactions = rc.ReactionCount }
  }
  \<close>
  The state is the map together with the running total of the target. The loop is the
  same in both handlers up to the field names, which are the first two arguments.
\<close>

fun countLoop ::
  "('r \<Rightarrow> int64) \<Rightarrow> ('r \<Rightarrow> int64) \<Rightarrow> int64 \<Rightarrow> 'r list \<Rightarrow> scoreMap \<times> int64 \<Rightarrow> scoreMap \<times> int64" where
  "countLoop idOf cnt target [] st = st"
| "countLoop idOf cnt target (rc # rcs) (m, tot) =
     countLoop idOf cnt target rcs
       (m(idOf rc \<mapsto> cnt rc), if idOf rc = target then cnt rc else tot)"

text \<open>
  \<^verbatim>\<open>
  for _, tt := range totalTips {
      userScore[tt.UserID] += tt.TotalTip
      if tt.UserID == user.ID { userTotalTip = tt.TotalTip }
  }
  \<close>
  The livestream handler has the first statement only; it uses the map of the result.
\<close>

fun tipLoop ::
  "('r \<Rightarrow> int64) \<Rightarrow> ('r \<Rightarrow> int64) \<Rightarrow> int64 \<Rightarrow> 'r list \<Rightarrow> scoreMap \<times> int64 \<Rightarrow> scoreMap \<times> int64" where
  "tipLoop idOf tip target [] st = st"
| "tipLoop idOf tip target (tt # tts) (m, tot) =
     tipLoop idOf tip target tts
       (m(idOf tt \<mapsto> getScore m (idOf tt) + tip tt), if idOf tt = target then tip tt else tot)"

subsection \<open>Building the ranking\<close>

text \<open>
  The rows of \<^verbatim>\<open>SELECT * FROM users\<close> and \<^verbatim>\<open>SELECT * FROM livestreams\<close>. The structs
  \<^verbatim>\<open>UserModel\<close> and \<^verbatim>\<open>LivestreamModel\<close> are declared outside the files at hand; the
  records hold the fields and columns that the handlers and their queries use.
\<close>

record UserModel =
  um_ID :: int64
  um_Name :: string

record LivestreamModel =
  lm_ID :: int64
  lm_UserID :: int64

text \<open>
  \<^verbatim>\<open>
  ranking := make(UserRanking, len(users))
  for _, user := range users {
      score := userScore[user.ID]
      ranking = append(ranking, UserRankingEntry{Username: user.Name, Score: score})
  }
  sort.Sort(ranking)
  \<close>
  \<^verbatim>\<open>make(UserRanking, n)\<close> is a slice of \<open>n\<close> zero-valued entries, and \<^verbatim>\<open>append\<close> adds after
  them.
\<close>

definition zeroUserRankingEntry :: UserRankingEntry where
  "zeroUserRankingEntry = \<lparr>ure_Username = [], ure_Score = 0\<rparr>"

definition zeroLivestreamRankingEntry :: LivestreamRankingEntry where
  "zeroLivestreamRankingEntry = \<lparr>lre_LivestreamID = 0, lre_Score = 0\<rparr>"

definition userEntry :: "scoreMap \<Rightarrow> UserModel \<Rightarrow> UserRankingEntry" where
  "userEntry userScore user =
     \<lparr>ure_Username = um_Name user, ure_Score = getScore userScore (um_ID user)\<rparr>"

definition livestreamEntry :: "scoreMap \<Rightarrow> LivestreamModel \<Rightarrow> LivestreamRankingEntry" where
  "livestreamEntry livestreamScore livestream =
     \<lparr>lre_LivestreamID = lm_ID livestream, lre_Score = getScore livestreamScore (lm_ID livestream)\<rparr>"

definition userRanking :: "UserModel list \<Rightarrow> scoreMap \<Rightarrow> UserRankingEntry list" where
  "userRanking users userScore =
     sort_Sort UserRanking_Less
       (fold (\<lambda>user ranking. ranking @ [userEntry userScore user]) users
          (replicate (length users) zeroUserRankingEntry))"

definition livestreamRanking :: "LivestreamModel list \<Rightarrow> scoreMap \<Rightarrow> LivestreamRankingEntry list" where
  "livestreamRanking livestreams livestreamScore =
     sort_Sort LivestreamRanking_Less
       (fold (\<lambda>livestream ranking. ranking @ [livestreamEntry livestreamScore livestream]) livestreams
          (replicate (length livestreams) zeroLivestreamRankingEntry))"

definition userRank :: "UserModel list \<Rightarrow> scoreMap \<Rightarrow> string \<Rightarrow> nat" where
  "userRank users userScore username = userRankScan (userRanking users userScore) username"

definition livestreamRank :: "LivestreamModel list \<Rightarrow> scoreMap \<Rightarrow> int64 \<Rightarrow> nat" where
  "livestreamRank livestreams livestreamScore livestreamID =
     livestreamRankScan (livestreamRanking livestreams livestreamScore) livestreamID"

subsection \<open>The database snapshot and the queries\<close>

text \<open>
  A handler reads everything inside one transaction, so it sees one snapshot of the
  tables. A table is the list of its rows, with the columns that the queries of
  \<^verbatim>\<open>stats_handler.go\<close> name. \<^verbatim>\<open>ReactionModel\<close> is the struct of
  \<^verbatim>\<open>reaction_handler.go\<close>; the rows of \<^verbatim>\<open>livecomments\<close>,
  \<^verbatim>\<open>livestream_viewers_history\<close> and \<^verbatim>\<open>livecomment_reports\<close> have the columns
  \<^verbatim>\<open>id\<close>, \<^verbatim>\<open>livestream_id\<close> and (for comments) \<^verbatim>\<open>tip\<close>.

  A snapshot answers every query: the failures of the database driver (the branches
  that return status 500) have no counterpart here. String comparison inside SQL
  (\<^verbatim>\<open>WHERE name = ?\<close>, \<^verbatim>\<open>GROUP BY emoji_name\<close>, \<^verbatim>\<open>ORDER BY emoji_name\<close>) is taken to be
  byte-wise, as Go's is. \<^verbatim>\<open>SUM\<close> is taken in \<^verbatim>\<open>int64\<close> arithmetic, which is the exact sum
  when that fits into an \<^verbatim>\<open>int64\<close> (\<open>tipSumsFit\<close> below; a sum that does not fit makes the
  scan of the row fail, one of the failures left out). \<^verbatim>\<open>COUNT\<close> is the number of rows, a
  number far below \<open>2^63\<close>.
\<close>

record ReactionModel =
  rm_ID :: int64
  rm_EmojiName :: string
  rm_UserID :: int64
  rm_LivestreamID :: int64
  rm_CreatedAt :: int64

record LivecommentRow =
  lc_ID :: int64
  lc_LivestreamID :: int64
  lc_Tip :: int64

record ViewersHistoryRow =
  vh_ID :: int64
  vh_LivestreamID :: int64

record LivecommentReportRow =
  lr_ID :: int64
  lr_LivestreamID :: int64

record DB =
  db_users :: "UserModel list"
  db_livestreams :: "LivestreamModel list"
  db_reactions :: "ReactionModel list"
  db_livecomments :: "LivecommentRow list"
  db_livestream_viewers_history :: "ViewersHistoryRow list"
  db_livecomment_reports :: "LivecommentReportRow list"

text \<open>\<^verbatim>\<open>tx.GetContext(ctx, &user, "SELECT * FROM users WHERE name = ?", username)\<close>:
  the first row, or \<^verbatim>\<open>sql.ErrNoRows\<close> (\<open>None\<close>).\<close>

definition selectUserByName :: "DB \<Rightarrow> string \<Rightarrow> UserModel option" where
  "selectUserByName db username = find (\<lambda>u. um_Name u = username) (db_users db)"

text \<open>
  \<^verbatim>\<open>
  SELECT u.id AS user_id, COUNT(r.id) AS reaction_count
  FROM users u
  INNER JOIN livestreams l ON l.user_id = u.id
  INNER JOIN reactions r ON r.livestream_id = l.id
  GROUP BY u.id
  \<close>
  \<open>userReactionJoin\<close> is the \<^verbatim>\<open>u.id\<close> column of the joined rows; the result has one row
  for every id that occurs there.
\<close>

definition userReactionJoin :: "DB \<Rightarrow> int64 list" where
  "userReactionJoin db =
     [um_ID u. u \<leftarrow> db_users db, l \<leftarrow> db_livestreams db, lm_UserID l = um_ID u,
               r \<leftarrow> db_reactions db, rm_LivestreamID r = lm_ID l]"

definition selectUserReactionCounts :: "DB \<Rightarrow> UserReactionCount list" where
  "selectUserReactionCounts db =
     map (\<lambda>k. \<lparr>urc_UserID = k, urc_ReactionCount = of_nat (count_list (userReactionJoin db) k)\<rparr>)
       (remdups (userReactionJoin db))"

text \<open>
  \<^verbatim>\<open>
  SELECT u.id AS user_id, IFNULL(SUM(lc.tip), 0) AS total_tip
  FROM users u
  INNER JOIN livestreams ls ON ls.user_id = u.id
  INNER JOIN livecomments lc ON lc.livestream_id = ls.id
  GROUP BY u.id
  \<close>
\<close>

definition userTipJoin :: "DB \<Rightarrow> (int64 \<times> int64) list" where
  "userTipJoin db =
     [(um_ID u, lc_Tip lc). u \<leftarrow> db_users db, ls \<leftarrow> db_livestreams db, lm_UserID ls = um_ID u,
               lc \<leftarrow> db_livecomments db, lc_LivestreamID lc = lm_ID ls]"

definition selectUserTotalTips :: "DB \<Rightarrow> UserTotalTip list" where
  "selectUserTotalTips db =
     map (\<lambda>k. \<lparr>utt_UserID = k, utt_TotalTip = sum_list [t. (k', t) \<leftarrow> userTipJoin db, k' = k]\<rparr>)
       (remdups (map fst (userTipJoin db)))"

text \<open>
  \<^verbatim>\<open>SELECT COUNT(lc.id) FROM livecomments lc INNER JOIN livestreams ls
  ON lc.livestream_id = ls.id WHERE ls.user_id = ?\<close>
\<close>

definition selectUserLivecommentsCount :: "DB \<Rightarrow> int64 \<Rightarrow> int64" where
  "selectUserLivecommentsCount db userID =
     of_nat (length [lc. lc \<leftarrow> db_livecomments db, ls \<leftarrow> db_livestreams db,
                         lc_LivestreamID lc = lm_ID ls, lm_UserID ls = userID])"

text \<open>
  \<^verbatim>\<open>SELECT COUNT(lvh.id) FROM livestream_viewers_history lvh INNER JOIN livestreams ls
  ON lvh.livestream_id = ls.id WHERE ls.user_id = ?\<close>
\<close>

definition selectUserViewersCount :: "DB \<Rightarrow> int64 \<Rightarrow> int64" where
  "selectUserViewersCount db userID =
     of_nat (length [lvh. lvh \<leftarrow> db_livestream_viewers_history db, ls \<leftarrow> db_livestreams db,
                          vh_LivestreamID lvh = lm_ID ls, lm_UserID ls = userID])"

text \<open>
  \<^verbatim>\<open>
  SELECT r.emoji_name
  FROM users u
  INNER JOIN livestreams l ON l.user_id = u.id
  INNER JOIN reactions r ON r.livestream_id = l.id
  WHERE u.name = ?
  GROUP BY emoji_name
  ORDER BY COUNT(*) DESC, emoji_name DESC
  LIMIT 1
  \<close>
  \<open>userEmojiJoin\<close> is the \<^verbatim>\<open>emoji_name\<close> column of the joined rows. \<open>emojiBefore\<close> is the
  \<^verbatim>\<open>ORDER BY\<close>: a group comes earlier when its count is larger, or the counts are equal
  and its name is larger. \<^verbatim>\<open>LIMIT 1\<close> keeps the group that comes before all others; no
  group at all is \<^verbatim>\<open>sql.ErrNoRows\<close>.
\<close>

definition userEmojiJoin :: "DB \<Rightarrow> string \<Rightarrow> string list" where
  "userEmojiJoin db username =
     [rm_EmojiName r. u \<leftarrow> db_users db, um_Name u = username,
               l \<leftarrow> db_livestreams db, lm_UserID l = um_ID u,
               r \<leftarrow> db_reactions db, rm_LivestreamID r = lm_ID l]"

definition emojiBefore :: "string list \<Rightarrow> string \<Rightarrow> string \<Rightarrow> bool" where
  "emojiBefore names a b =
     (count_list names b < count_list names a \<or>
      (count_list names a = count_list names b \<and> b < a))"

definition selectFavoriteEmoji :: "DB \<Rightarrow> string \<Rightarrow> string option" where
  "selectFavoriteEmoji db username =
     (case remdups (userEmojiJoin db username) of
        [] \<Rightarrow> None
      | g # gs \<Rightarrow>
          Some (fold (\<lambda>x best. if emojiBefore (userEmojiJoin db username) x best then x else best) gs g))"

text \<open>
  Modelled from the spec: \<^verbatim>\<open>getLivestream(ctx, tx, id)\<close> is defined outside the files at
  hand. The handler uses it to decide whether the target exists, and the spec says that
  the statistics fail with "not found" when the livestream does not exist in the
  population: it is the lookup of the row by its id, \<^verbatim>\<open>sql.ErrNoRows\<close> (\<open>None\<close>) when
  there is none.
\<close>

definition getLivestream :: "DB \<Rightarrow> int64 \<Rightarrow> LivestreamModel option" where
  "getLivestream db livestreamID = find (\<lambda>l. lm_ID l = livestreamID) (db_livestreams db)"

text \<open>
  \<^verbatim>\<open>
  SELECT l.id AS livestream_id, COUNT(r.id) AS reaction_count
  FROM livestreams l INNER JOIN reactions r ON l.id = r.livestream_id GROUP BY l.id
  \<close>
\<close>

definition livestreamReactionJoin :: "DB \<Rightarrow> int64 list" where
  "livestreamReactionJoin db =
     [lm_ID l. l \<leftarrow> db_livestreams db, r \<leftarrow> db_reactions db, lm_ID l = rm_LivestreamID r]"

definition selectLivestreamReactionCounts :: "DB \<Rightarrow> LivestreamReactionCount list" where
  "selectLivestreamReactionCounts db =
     map (\<lambda>k. \<lparr>lrc_LivestreamID = k,
               lrc_ReactionCount = of_nat (count_list (livestreamReactionJoin db) k)\<rparr>)
       (remdups (livestreamReactionJoin db))"

text \<open>
  \<^verbatim>\<open>
  SELECT l.id AS livestream_id, IFNULL(SUM(l2.tip), 0) AS total_tip
  FROM livestreams l INNER JOIN livecomments l2 ON l.id = l2.livestream_id GROUP BY l.id
  \<close>
\<close>

definition livestreamTipJoin :: "DB \<Rightarrow> (int64 \<times> int64) list" where
  "livestreamTipJoin db =
     [(lm_ID l, lc_Tip l2). l \<leftarrow> db_livestreams db, l2 \<leftarrow> db_livecomments db,
               lm_ID l = lc_LivestreamID l2]"

definition selectLivestreamTotalTips :: "DB \<Rightarrow> LivestreamTotalTip list" where
  "selectLivestreamTotalTips db =
     map (\<lambda>k. \<lparr>ltt_LivestreamID = k,
               ltt_TotalTip = sum_list [t. (k', t) \<leftarrow> livestreamTipJoin db, k' = k]\<rparr>)
       (remdups (map fst (livestreamTipJoin db)))"

text \<open>
  \<^verbatim>\<open>SELECT COUNT(h.id) FROM livestreams l INNER JOIN livestream_viewers_history h
  ON h.livestream_id = l.id WHERE l.id = ?\<close>
\<close>

definition selectLivestreamViewersCount :: "DB \<Rightarrow> int64 \<Rightarrow> int64" where
  "selectLivestreamViewersCount db livestreamID =
     of_nat (length [h. l \<leftarrow> db_livestreams db, h \<leftarrow> db_livestream_viewers_history db,
                        vh_LivestreamID h = lm_ID l, lm_ID l = livestreamID])"

text \<open>
  \<^verbatim>\<open>SELECT IFNULL(MAX(tip), 0) FROM livestreams l INNER JOIN livecomments l2
  ON l2.livestream_id = l.id WHERE l.id = ?\<close>.
  \<^verbatim>\<open>MAX\<close> compares signed numbers and is \<^verbatim>\<open>NULL\<close> over no rows.
\<close>

definition maxInt64 :: "int64 \<Rightarrow> int64 \<Rightarrow> int64" where
  "maxInt64 a b = (if sint b < sint a then a else b)"

definition livestreamTips :: "DB \<Rightarrow> int64 \<Rightarrow> int64 list" where
  "livestreamTips db livestreamID =
     [lc_Tip l2. l \<leftarrow> db_livestreams db, l2 \<leftarrow> db_livecomments db,
                 lc_LivestreamID l2 = lm_ID l, lm_ID l = livestreamID]"

definition selectMaxTip :: "DB \<Rightarrow> int64 \<Rightarrow> int64" where
  "selectMaxTip db livestreamID =
     (case livestreamTips db livestreamID of
        [] \<Rightarrow> 0
      | t # ts \<Rightarrow> fold maxInt64 ts t)"

text \<open>
  \<^verbatim>\<open>SELECT COUNT(r.id) FROM livestreams l INNER JOIN livecomment_reports r
  ON r.livestream_id = l.id WHERE l.id = ?\<close>
\<close>

definition selectTotalReports :: "DB \<Rightarrow> int64 \<Rightarrow> int64" where
  "selectTotalReports db livestreamID =
     of_nat (length [r. l \<leftarrow> db_livestreams db, r \<leftarrow> db_livecomment_reports db,
                        lr_LivestreamID r = lm_ID l, lm_ID l = livestreamID])"

subsection \<open>The statistics handlers\<close>

record LivestreamStatistics =
  lst_Rank :: nat
  lst_ViewersCount :: int64
  lst_TotalReactions :: int64
  lst_TotalReports :: int64
  lst_MaxTip :: int64

record UserStatistics =
  ust_Rank :: nat
  ust_ViewersCount :: int64
  ust_TotalReactions :: int64
  ust_TotalLivecomments :: int64
  ust_TotalTip :: int64
  ust_FavoriteEmoji :: string

text \<open>
  The two loops over the aggregate rows, from \<^verbatim>\<open>userScore := map[int64]int64{}\<close> on: the
  final score map, \<^verbatim>\<open>userTotalReactions\<close> and \<^verbatim>\<open>userTotalTip\<close>.
\<close>

definition userScores ::
  "int64 \<Rightarrow> UserReactionCount list \<Rightarrow> UserTotalTip list \<Rightarrow> scoreMap \<times> int64 \<times> int64" where
  "userScores userID reactionCounts totalTips =
     (case countLoop urc_UserID urc_ReactionCount userID reactionCounts (Map.empty, 0) of
        (userScore, userTotalReactions) \<Rightarrow>
          (case tipLoop utt_UserID utt_TotalTip userID totalTips (userScore, 0) of
             (userScore', userTotalTip) \<Rightarrow> (userScore', userTotalReactions, userTotalTip)))"

definition livestreamScores ::
  "int64 \<Rightarrow> LivestreamReactionCount list \<Rightarrow> LivestreamTotalTip list \<Rightarrow> scoreMap \<times> int64" where
  "livestreamScores livestreamID reactionCounts totalTips =
     (case countLoop lrc_LivestreamID lrc_ReactionCount livestreamID reactionCounts (Map.empty, 0) of
        (livestreamScore, totalReactions) \<Rightarrow>
          (fst (tipLoop ltt_LivestreamID ltt_TotalTip livestreamID totalTips (livestreamScore, 0)),
           totalReactions))"

text \<open>
  The body of \<^verbatim>\<open>getUserStatisticsHandler\<close> after the target row has been read, as a
  function of what the queries returned: the target row \<open>user\<close>, the rows \<open>users\<close> of
  the population, \<open>reactionCounts\<close>, \<open>totalTips\<close>, the two counts, and the row of the
  favourite-emoji query (\<open>None\<close> for \<^verbatim>\<open>sql.ErrNoRows\<close>, which leaves \<^verbatim>\<open>favoriteEmoji\<close> at
  its zero value).
\<close>

definition userStatistics ::
  "UserModel \<Rightarrow> UserModel list \<Rightarrow> UserReactionCount list \<Rightarrow> UserTotalTip list \<Rightarrow>
   int64 \<Rightarrow> int64 \<Rightarrow> string option \<Rightarrow> string \<Rightarrow> UserStatistics" where
  "userStatistics user users reactionCounts totalTips totalLivecomments viewersCount favorite username =
     (case userScores (um_ID user) reactionCounts totalTips of
        (userScore, userTotalReactions, userTotalTip) \<Rightarrow>
          \<lparr>ust_Rank = userRank users userScore username,
           ust_ViewersCount = viewersCount,
           ust_TotalReactions = userTotalReactions,
           ust_TotalLivecomments = totalLivecomments,
           ust_TotalTip = userTotalTip,
           ust_FavoriteEmoji = (case favorite of None \<Rightarrow> [] | Some e \<Rightarrow> e)\<rparr>)"

definition livestreamStatistics ::
  "int64 \<Rightarrow> LivestreamModel list \<Rightarrow> LivestreamReactionCount list \<Rightarrow> LivestreamTotalTip list \<Rightarrow>
   int64 \<Rightarrow> int64 \<Rightarrow> int64 \<Rightarrow> LivestreamStatistics" where
  "livestreamStatistics livestreamID livestreams reactionCounts totalTips viewersCount maxTip totalReports =
     (case livestreamScores livestreamID reactionCounts totalTips of
        (livestreamScore, totalReactions) \<Rightarrow>
          \<lparr>lst_Rank = livestreamRank livestreams livestreamScore livestreamID,
           lst_ViewersCount = viewersCount,
           lst_TotalReactions = totalReactions,
           lst_TotalReports = totalReports,
           lst_MaxTip = maxTip\<rparr>)"

text \<open>
  \<^verbatim>\<open>getUserStatisticsHandler\<close>. \<open>session\<close> is what \<^verbatim>\<open>verifyUserSession(c)\<close> returned
  (\<open>None\<close> for \<^verbatim>\<open>nil\<close>); \<open>username\<close> is \<^verbatim>\<open>c.Param("username")\<close>.
\<close>

definition getUserStatisticsHandler :: "error option \<Rightarrow> DB \<Rightarrow> string \<Rightarrow> error + UserStatistics" where
  "getUserStatisticsHandler session db username =
     (case session of
        Some err \<Rightarrow> Inl err
      | None \<Rightarrow>
          (case selectUserByName db username of
             None \<Rightarrow> Inl (HTTPError 400 ''not found user that has the given username'')
           | Some user \<Rightarrow>
               Inr (userStatistics user (db_users db)
                      (selectUserReactionCounts db) (selectUserTotalTips db)
                      (selectUserLivecommentsCount db (um_ID user))
                      (selectUserViewersCount db (um_ID user))
                      (selectFavoriteEmoji db username) username)))"

text \<open>
  \<^verbatim>\<open>getLivestreamStatisticsHandler\<close>. \<open>param\<close> is what
  \<^verbatim>\<open>strconv.Atoi(c.Param("livestream_id"))\<close> returned (\<open>None\<close> for an error).
\<close>

definition getLivestreamStatisticsHandler ::
  "error option \<Rightarrow> DB \<Rightarrow> int64 option \<Rightarrow> error + LivestreamStatistics" where
  "getLivestreamStatisticsHandler session db param =
     (case session of
        Some err \<Rightarrow> Inl err
      | None \<Rightarrow>
          (case param of
             None \<Rightarrow> Inl (HTTPError 400 ''livestream_id in path must be integer'')
           | Some livestreamID \<Rightarrow>
               (case getLivestream db livestreamID of
                  None \<Rightarrow> Inl (HTTPError 400 ''cannot get stats of not found livestream'')
                | Some _ \<Rightarrow>
                    Inr (livestreamStatistics livestreamID (db_livestreams db)
                           (selectLivestreamReactionCounts db) (selectLivestreamTotalTips db)
                           (selectLivestreamViewersCount db livestreamID)
                           (selectMaxTip db livestreamID)
                           (selectTotalReports db livestreamID)))))"

subsection \<open>The response of \<^verbatim>\<open>getReactionsHandler\<close>\<close>

text \<open>
  The response structs \<^verbatim>\<open>Theme\<close>, \<^verbatim>\<open>User\<close> and \<^verbatim>\<open>Livestream\<close> are declared outside the
  files at hand; the records hold the fields that the handler fills. \<^verbatim>\<open>Tag\<close> is a type
  parameter. A \<^verbatim>\<open>[]byte\<close> column is \<open>None\<close> when it is \<^verbatim>\<open>nil\<close>.
\<close>

record Theme =
  th_ID :: int64
  th_DarkMode :: bool

record User =
  usr_ID :: int64
  usr_Name :: string
  usr_DisplayName :: string
  usr_Description :: string
  usr_Theme :: Theme
  usr_IconHash :: string

record 'tag Livestream =
  ls_ID :: int64
  ls_Owner :: User
  ls_Title :: string
  ls_Description :: string
  ls_PlaylistUrl :: string
  ls_ThumbnailUrl :: string
  ls_StartAt :: int64
  ls_EndAt :: int64
  ls_Tags :: "'tag list"

record 'tag Reaction =
  re_ID :: int64
  re_EmojiName :: string
  re_User :: User
  re_Livestream :: "'tag Livestream"
  re_CreatedAt :: int64

record ReactionWithDetails =
  rd_ID :: int64
  rd_EmojiName :: string
  rd_CreatedAt :: int64
  rd_UserID :: int64
  rd_UserName :: string
  rd_UserDisplayName :: string
  rd_UserDescription :: string
  rd_UserThemeID :: int64
  rd_UserDarkMode :: bool
  rd_UserIconImage :: "8 word list option"
  rd_LivestreamID :: int64
  rd_LivestreamOwnerID :: int64
  rd_LivestreamOwnerName :: string
  rd_LivestreamOwnerDisplayName :: string
  rd_LivestreamOwnerDescription :: string
  rd_LivestreamOwnerThemeID :: int64
  rd_LivestreamOwnerDarkMode :: bool
  rd_LivestreamOwnerIconImage :: "8 word list option"
  rd_LivestreamTitle :: string
  rd_LivestreamDescription :: string
  rd_LivestreamPlaylistURL :: string
  rd_LivestreamThumbnailURL :: string
  rd_LivestreamStartAt :: int64
  rd_LivestreamEndAt :: int64

text \<open>
  The value assigned in the body of the loop. \<open>hashHex\<close> stands for
  \<^verbatim>\<open>fmt.Sprintf("%x", sha256.Sum256(...))\<close>, which nothing here depends on.
\<close>

definition reactionOf ::
  "(8 word list \<Rightarrow> string) \<Rightarrow> string \<Rightarrow> 'tag list \<Rightarrow> ReactionWithDetails \<Rightarrow> 'tag Reaction" where
  "reactionOf hashHex fallbackImageHash tags r =
     (let userIconHash =
            (case rd_UserIconImage r of None \<Rightarrow> fallbackImageHash | Some img \<Rightarrow> hashHex img);
          livestreamOwnerIconHash =
            (case rd_LivestreamOwnerIconImage r of None \<Rightarrow> fallbackImageHash | Some img \<Rightarrow> hashHex img)
      in \<lparr>re_ID = rd_ID r,
          re_EmojiName = rd_EmojiName r,
          re_User =
            \<lparr>usr_ID = rd_UserID r, usr_Name = rd_UserName r,
             usr_DisplayName = rd_UserDisplayName r, usr_Description = rd_UserDescription r,
             usr_Theme = \<lparr>th_ID = rd_UserThemeID r, th_DarkMode = rd_UserDarkMode r\<rparr>,
             usr_IconHash = userIconHash\<rparr>,
          re_Livestream =
            \<lparr>ls_ID = rd_LivestreamID r,
             ls_Owner =
               \<lparr>usr_ID = rd_LivestreamOwnerID r, usr_Name = rd_LivestreamOwnerName r,
                usr_DisplayName = rd_LivestreamOwnerDisplayName r,
                usr_Description = rd_LivestreamOwnerDescription r,
                usr_Theme = \<lparr>th_ID = rd_LivestreamOwnerThemeID r,
                             th_DarkMode = rd_LivestreamOwnerDarkMode r\<rparr>,
                usr_IconHash = livestreamOwnerIconHash\<rparr>,
             ls_Title = rd_LivestreamTitle r, ls_Description = rd_LivestreamDescription r,
             ls_PlaylistUrl = rd_LivestreamPlaylistURL r,
             ls_ThumbnailUrl = rd_LivestreamThumbnailURL r,
             ls_StartAt = rd_LivestreamStartAt r, ls_EndAt = rd_LivestreamEndAt r,
             ls_Tags = tags\<rparr>,
          re_CreatedAt = rd_CreatedAt r\<rparr>)"

text \<open>
  \<^verbatim>\<open>
  for i := range reactions {
      ...
      reactionsResponse[i] = Reaction{...}
  }
  \<close>
  The fourth argument is the part of \<^verbatim>\<open>reactions\<close> from index \<open>i\<close> on. An assignment to
  an index that is not below the length of the slice panics at run time.
\<close>

fun responseLoop ::
  "(8 word list \<Rightarrow> string) \<Rightarrow> string \<Rightarrow> 'tag list \<Rightarrow> ReactionWithDetails list \<Rightarrow> nat \<Rightarrow>
   'tag Reaction list \<Rightarrow> error + 'tag Reaction list" where
  "responseLoop hashHex fallbackImageHash tags [] i reactionsResponse = Inr reactionsResponse"
| "responseLoop hashHex fallbackImageHash tags (r # rs) i reactionsResponse =
     (if i < length reactionsResponse
      then responseLoop hashHex fallbackImageHash tags rs (i + 1)
             (reactionsResponse[i := reactionOf hashHex fallbackImageHash tags r])
      else Inl (Panic ''runtime error: index out of range''))"

text \<open>
  \<^verbatim>\<open>getReactionsHandler\<close> from \<^verbatim>\<open>reactionsResponse := []Reaction{}\<close> to the end: what it
  does once the session has been verified, the rows \<open>reactions\<close> and \<open>tags\<close> have been
  read and the transaction has been committed. \<open>fallback\<close> is what
  \<^verbatim>\<open>os.ReadFile(fallbackImage)\<close> returned, with the text of the error on the left.
\<close>

definition getReactionsHandler_response ::
  "(8 word list \<Rightarrow> string) \<Rightarrow> string + 8 word list \<Rightarrow> ReactionWithDetails list \<Rightarrow> 'tag list \<Rightarrow>
   error + 'tag Reaction list" where
  "getReactionsHandler_response hashHex fallback reactions tags =
     (case fallback of
        Inl err \<Rightarrow> Inl (HTTPError 500 (''failed read fallback image: '' @ err))
      | Inr img \<Rightarrow> responseLoop hashHex (hashHex img) tags reactions 0 [])"

subsection \<open>Notions used to state the properties\<close>

text \<open>
  The comparators order the entries by these keys: the signed score first, then the
  tie-break key.
\<close>

definition userKey :: "UserRankingEntry \<Rightarrow> int \<times> string" where
  "userKey e = (sint (ure_Score e), ure_Username e)"

definition livestreamKey :: "LivestreamRankingEntry \<Rightarrow> int \<times> int" where
  "livestreamKey e = (sint (lre_Score e), sint (lre_LivestreamID e))"

text \<open>The number of entries of \<open>xs\<close> that are strictly above \<open>e\<close>.\<close>

definition entriesAbove :: "('e \<Rightarrow> 'k::linorder) \<Rightarrow> 'e \<Rightarrow> 'e list \<Rightarrow> nat" where
  "entriesAbove kf e xs = length (filter (\<lambda>x. kf e < kf x) xs)"

text \<open>
  The fact mapping that a list of aggregate rows stands for: the value of the row of
  \<open>k\<close>, and 0 when \<open>k\<close> has no row.
\<close>

definition factOf :: "('r \<Rightarrow> int64) \<Rightarrow> ('r \<Rightarrow> int64) \<Rightarrow> 'r list \<Rightarrow> int64 \<Rightarrow> int64" where
  "factOf idOf val rows k = (case find (\<lambda>r. idOf r = k) rows of None \<Rightarrow> 0 | Some r \<Rightarrow> val r)"

text \<open>
  The ranking pipeline without the zero-valued entries: the entries of the population
  alone, sorted and scanned.
\<close>

definition userRankReal :: "UserModel list \<Rightarrow> scoreMap \<Rightarrow> string \<Rightarrow> nat" where
  "userRankReal users userScore username =
     userRankScan (sort_Sort UserRanking_Less (map (userEntry userScore) users)) username"

definition livestreamRankReal :: "LivestreamModel list \<Rightarrow> scoreMap \<Rightarrow> int64 \<Rightarrow> nat" where
  "livestreamRankReal livestreams livestreamScore livestreamID =
     livestreamRankScan
       (sort_Sort LivestreamRanking_Less (map (livestreamEntry livestreamScore) livestreams))
       livestreamID"



text \<open>
  The emoji names of the reactions on the livestreams of a user, one for every such
  reaction; the tips of the comments on a livestream; the reports against a livestream.
\<close>

definition userReactionEmojis :: "DB \<Rightarrow> int64 \<Rightarrow> string list" where
  "userReactionEmojis db userID =
     map rm_EmojiName
       (filter (\<lambda>r. list_ex (\<lambda>l. lm_ID l = rm_LivestreamID r \<and> lm_UserID l = userID)
                        (db_livestreams db))
          (db_reactions db))"

definition commentTips :: "DB \<Rightarrow> int64 \<Rightarrow> int64 list" where
  "commentTips db livestreamID =
     map lc_Tip (filter (\<lambda>c. lc_LivestreamID c = livestreamID) (db_livecomments db))"

definition reportsAgainst :: "DB \<Rightarrow> int64 \<Rightarrow> LivecommentReportRow list" where
  "reportsAgainst db livestreamID =
     filter (\<lambda>r. lr_LivestreamID r = livestreamID) (db_livecomment_reports db)"

text \<open>
  MySQL computes \<^verbatim>\<open>SUM(tip)\<close> exactly, and the scan of a sum that is not an \<^verbatim>\<open>int64\<close>
  into the \<^verbatim>\<open>int64\<close> field fails: the handler then answers with status 500. The rows of
  the two tip queries are the ones modelled above when every sum fits.
\<close>

definition int64Range :: "int \<Rightarrow> bool" where
  "int64Range i = (- (2 ^ 63) \<le> i \<and> i < 2 ^ 63)"

definition tipSumsFit :: "DB \<Rightarrow> bool" where
  "tipSumsFit db =
     ((\<forall>k\<in>set (map fst (userTipJoin db)).
         int64Range (sum_list [sint t. (k', t) \<leftarrow> userTipJoin db, k' = k])) \<and>
      (\<forall>k\<in>set (map fst (livestreamTipJoin db)).
         int64Range (sum_list [sint t. (k', t) \<leftarrow> livestreamTipJoin db, k' = k])))"

text \<open>
  A snapshot for the examples. User \<open>a\<close> owns livestream 10, which nobody has visited;
  user \<open>b\<close> owns the livestreams 20 and 30, with the emojis \<open>fire\<close> and \<open>heart\<close> three
  times each, the tips 100, 50 and 0 on livestream 20, one viewer and two reports;
  user \<open>c\<close> has no livestream.
\<close>

definition exampleDB :: DB where
  "exampleDB =
     \<lparr>db_users = [\<lparr>um_ID = 1, um_Name = ''a''\<rparr>, \<lparr>um_ID = 2, um_Name = ''b''\<rparr>,
                  \<lparr>um_ID = 3, um_Name = ''c''\<rparr>],
      db_livestreams = [\<lparr>lm_ID = 10, lm_UserID = 1\<rparr>, \<lparr>lm_ID = 20, lm_UserID = 2\<rparr>,
                        \<lparr>lm_ID = 30, lm_UserID = 2\<rparr>],
      db_reactions =
        [\<lparr>rm_ID = 1, rm_EmojiName = ''fire'', rm_UserID = 1, rm_LivestreamID = 20, rm_CreatedAt = 0\<rparr>,
         \<lparr>rm_ID = 2, rm_EmojiName = ''heart'', rm_UserID = 1, rm_LivestreamID = 20, rm_CreatedAt = 0\<rparr>,
         \<lparr>rm_ID = 3, rm_EmojiName = ''fire'', rm_UserID = 3, rm_LivestreamID = 20, rm_CreatedAt = 0\<rparr>,
         \<lparr>rm_ID = 4, rm_EmojiName = ''heart'', rm_UserID = 1, rm_LivestreamID = 30, rm_CreatedAt = 0\<rparr>,
         \<lparr>rm_ID = 5, rm_EmojiName = ''fire'', rm_UserID = 3, rm_LivestreamID = 30, rm_CreatedAt = 0\<rparr>,
         \<lparr>rm_ID = 6, rm_EmojiName = ''heart'', rm_UserID = 3, rm_LivestreamID = 30, rm_CreatedAt = 0\<rparr>],
      db_livecomments =
        [\<lparr>lc_ID = 1, lc_LivestreamID = 20, lc_Tip = 100\<rparr>,
         \<lparr>lc_ID = 2, lc_LivestreamID = 20, lc_Tip = 50\<rparr>,
         \<lparr>lc_ID = 3, lc_LivestreamID = 20, lc_Tip = 0\<rparr>],
      db_livestream_viewers_history = [\<lparr>vh_ID = 1, vh_LivestreamID = 20\<rparr>],
      db_livecomment_reports =
        [\<lparr>lr_ID = 1, lr_LivestreamID = 20\<rparr>, \<lparr>lr_ID = 2, lr_LivestreamID = 20\<rparr>]\<rparr>"

section \<open>Properties\<close>

subsection \<open>Sorting by a comparator that a key induces\<close>

lemma sort_insert_insort_key:
  assumes "\<And>a b. lt a b = (kf a < kf b)"
  shows "sort_insert lt x ys = insort_key kf x ys"
  by (induction ys) (auto simp: assms)

lemma sort_Sort_sort_key:
  assumes "\<And>a b. lt a b = (kf a < kf b)"
  shows "sort_Sort lt xs = sort_key kf xs"
  by (induction xs) (simp_all add: sort_insert_insort_key [OF assms] sort_key_def)

lemma mset_sort_insert: "mset (sort_insert lt x ys) = add_mset x (mset ys)"
  by (induction ys) auto

lemma mset_sort_Sort: "mset (sort_Sort lt xs) = mset xs"
  by (induction xs) (simp_all add: mset_sort_insert)

lemma sorted_key_unique:
  fixes kf :: "'e \<Rightarrow> 'k::linorder"
  assumes inj: "inj_on kf (set xs)"
    and m: "mset ys = mset xs"
    and sx: "sorted (map kf xs)" and sy: "sorted (map kf ys)"
  shows "ys = xs"
proof -
  have "mset (map kf ys) = mset (map kf xs)"
    using m by (metis mset_map)
  then have "map kf ys = map kf xs"
    using sx sy by (metis properties_for_sort)
  moreover have "set ys = set xs"
    using m by (metis set_mset_mset)
  ultimately show ?thesis
    using inj by (metis inj_on_map_eq_map sup.idem)
qed

lemma sort_Sort_unique:
  fixes kf :: "'e \<Rightarrow> 'k::linorder"
  assumes lt: "\<And>a b. lt a b = (kf a < kf b)" and inj: "inj kf"
    and m: "mset ys = mset xs"
    and s: "sorted_wrt (\<lambda>a b. \<not> lt b a) ys"
  shows "ys = sort_Sort lt xs"
proof (rule sorted_key_unique [where kf = kf])
  show "inj_on kf (set (sort_Sort lt xs))" using inj by (rule inj_on_subset) simp
  show "mset ys = mset (sort_Sort lt xs)" using m by (simp add: mset_sort_Sort)
  show "sorted (map kf (sort_Sort lt xs))"
    unfolding sort_Sort_sort_key [of lt kf, OF lt] by (rule sorted_sort_key)
  have "sorted_wrt (\<lambda>a b. kf a \<le> kf b) ys"
    using s by (simp add: lt not_less)
  then show "sorted (map kf ys)" by (simp add: sorted_map)
qed

lemma rankLoop_take:
  "k \<le> length xs \<Longrightarrow>
   rankLoop P xs k r = r + length (takeWhile (\<lambda>e. \<not> P e) (rev (take k xs)))"
proof (induction k arbitrary: r)
  case 0
  then show ?case by simp
next
  case (Suc k)
  then have k: "k < length xs" by simp
  have "take (Suc k) xs = take k xs @ [xs ! k]"
    using k by (simp add: take_Suc_conv_app_nth)
  then show ?case using Suc by simp
qed

lemma rankLoop_takeWhile:
  "rankLoop P xs (length xs) r = r + length (takeWhile (\<lambda>e. \<not> P e) (rev xs))"
  by (simp add: rankLoop_take)

lemma scan_count_above:
  fixes kf :: "'e \<Rightarrow> 'k::linorder"
  assumes "sorted (map kf xs)" "inj_on kf (set xs)" "e \<in> set xs" "P e"
    and "\<And>x. x \<in> set xs \<Longrightarrow> P x \<Longrightarrow> kf x \<le> kf e"
  shows "length (takeWhile (\<lambda>x. \<not> P x) (rev xs)) = length (filter (\<lambda>x. kf e < kf x) xs)"
  using assms
proof (induction xs rule: rev_induct)
  case Nil
  then show ?case by simp
next
  case (snoc x xs)
  have sxs: "sorted (map kf xs)" and le: "\<And>y. y \<in> set xs \<Longrightarrow> kf y \<le> kf x"
    using snoc.prems(1) by (auto simp: sorted_append)
  show ?case
  proof (cases "P x")
    case True
    then have "kf x \<le> kf e" using snoc.prems(5) by simp
    then have "\<And>y. y \<in> set (xs @ [x]) \<Longrightarrow> \<not> kf e < kf y"
      using le by fastforce
    then have "filter (\<lambda>y. kf e < kf y) (xs @ [x]) = []"
      by (simp add: filter_empty_conv) 
    then show ?thesis using True by simp
  next
    case False
    then have exs: "e \<in> set xs" and ne: "e \<noteq> x"
      using snoc.prems(3,4) by auto
    have "kf e \<noteq> kf x"
      using snoc.prems(2) exs ne by (auto simp: inj_on_def)
    then have lt: "kf e < kf x" using le [OF exs] by simp
    have "length (takeWhile (\<lambda>x. \<not> P x) (rev xs)) = length (filter (\<lambda>x. kf e < kf x) xs)"
      using snoc.IH [OF sxs _ exs snoc.prems(4)] snoc.prems(2,5) by (simp add: inj_on_def)
    then show ?thesis using False lt by simp
  qed
qed

lemma count_above_antitone:
  fixes kf :: "'e \<Rightarrow> 'k::linorder"
  assumes "b \<in> set xs" "kf a < kf b"
  shows "length (filter (\<lambda>x. kf b < kf x) xs) < length (filter (\<lambda>x. kf a < kf x) xs)"
proof -
  have "filter (\<lambda>x. kf b < kf x) xs = filter (\<lambda>x. kf b < kf x) (filter (\<lambda>x. kf a < kf x) xs)"
    using assms(2) by (auto intro!: filter_cong)
  moreover have "b \<in> set (filter (\<lambda>x. kf a < kf x) xs)" using assms by simp
  ultimately show ?thesis
    by (metis length_filter_less less_irrefl)
qed

subsection \<open>The comparators and their keys\<close>

lemma sint_eq_iff: "(sint (a::int64) = sint b) = (a = b)"
  by (auto intro: signed_word_eqI)

lemma UserRanking_Less_key: "UserRanking_Less a b = (userKey a < userKey b)"
  using sint_eq_iff [of "ure_Score a" "ure_Score b"]
  by (auto simp: UserRanking_Less_def userKey_def less_prod_def)

lemma LivestreamRanking_Less_key: "LivestreamRanking_Less a b = (livestreamKey a < livestreamKey b)"
  using sint_eq_iff [of "lre_Score a" "lre_Score b"]
  by (auto simp: LivestreamRanking_Less_def livestreamKey_def less_prod_def)

lemma inj_userKey: "inj userKey"
  by (rule injI) (simp add: userKey_def sint_eq_iff)

lemma inj_livestreamKey: "inj livestreamKey"
  by (rule injI) (simp add: livestreamKey_def sint_eq_iff)

lemma UserRanking_sort_unique:
  "mset ys = mset xs \<Longrightarrow> sorted_wrt (\<lambda>a b. \<not> UserRanking_Less b a) ys \<Longrightarrow>
   ys = sort_Sort UserRanking_Less xs"
  by (rule sort_Sort_unique [where kf = userKey, OF UserRanking_Less_key inj_userKey])

lemma LivestreamRanking_sort_unique:
  "mset ys = mset xs \<Longrightarrow> sorted_wrt (\<lambda>a b. \<not> LivestreamRanking_Less b a) ys \<Longrightarrow>
   ys = sort_Sort LivestreamRanking_Less xs"
  by (rule sort_Sort_unique [where kf = livestreamKey, OF LivestreamRanking_Less_key inj_livestreamKey])

lemma fold_append_map: "fold (\<lambda>x acc. acc @ [f x]) xs init = init @ map f xs"
  by (induction xs arbitrary: init) simp_all

lemma entriesAbove_perm: "mset xs = mset ys \<Longrightarrow> entriesAbove kf e xs = entriesAbove kf e ys"
  unfolding entriesAbove_def by (metis mset_filter size_mset)

lemma entriesAbove_append: "entriesAbove kf e (xs @ ys) = entriesAbove kf e xs + entriesAbove kf e ys"
  by (simp add: entriesAbove_def)

lemma entriesAbove_replicate: "entriesAbove kf e (replicate n z) = (if kf e < kf z then n else 0)"
  by (simp add: entriesAbove_def)

lemma rank_with_placeholders:
  fixes kf :: "'e \<Rightarrow> 'k::linorder"
  assumes lt: "\<And>a b. lt a b = (kf a < kf b)" and inj: "inj kf"
    and e: "e \<in> set es" "P e"
    and uniq: "\<And>x. x \<in> set es \<Longrightarrow> P x \<Longrightarrow> x = e"
    and z: "P z \<Longrightarrow> kf z \<le> kf e"
  shows "rankLoop P (sort_Sort lt (replicate n z @ es)) (length (sort_Sort lt (replicate n z @ es))) 1
         = 1 + (if kf e < kf z then n else 0) + entriesAbove kf e es"
proof -
  let ?raw = "replicate n z @ es"
  let ?s = "sort_Sort lt ?raw"
  have s: "?s = sort_key kf ?raw" by (rule sort_Sort_sort_key [OF lt])
  have sorted: "sorted (map kf ?s)" unfolding s by (rule sorted_sort_key)
  have m: "mset ?s = mset ?raw" by (rule mset_sort_Sort)
  then have set: "set ?s = set ?raw" by (metis set_mset_mset)
  have injs: "inj_on kf (set ?s)" using inj by (rule inj_on_subset) simp
  have es: "e \<in> set ?s" using e(1) set by simp
  have mx: "\<And>x. x \<in> set ?s \<Longrightarrow> P x \<Longrightarrow> kf x \<le> kf e"
  proof -
    fix x assume "x \<in> set ?s" "P x"
    then have "x = z \<or> x \<in> set es" using set by (auto split: if_splits)
    then show "kf x \<le> kf e" using uniq z \<open>P x\<close> by auto
  qed
  have "length (takeWhile (\<lambda>x. \<not> P x) (rev ?s)) = entriesAbove kf e ?s"
    unfolding entriesAbove_def
    by (rule scan_count_above [where P = P, OF sorted injs es e(2) mx])
  also have "\<dots> = entriesAbove kf e ?raw" by (rule entriesAbove_perm [OF m])
  finally show ?thesis
    by (simp add: rankLoop_takeWhile entriesAbove_append entriesAbove_replicate)
qed

subsection \<open>The rank as a count of the entries above\<close>

lemma userRank_char:
  assumes u: "u \<in> set users" and d: "distinct (map um_Name users)"
    and ok: "um_Name u \<noteq> [] \<or> 0 \<le> sint (getScore sc (um_ID u))"
  shows "userRank users sc (um_Name u) =
    1 + (if sint (getScore sc (um_ID u)) < 0 then length users else 0)
      + entriesAbove userKey (userEntry sc u) (map (userEntry sc) users)"
proof -
  let ?P = "\<lambda>entry. ure_Username entry = um_Name u"
  let ?es = "map (userEntry sc) users"
  have e: "userEntry sc u \<in> set ?es" using u by simp
  have P: "?P (userEntry sc u)" by (simp add: userEntry_def)
  have uniq: "\<And>x. x \<in> set ?es \<Longrightarrow> ?P x \<Longrightarrow> x = userEntry sc u"
  proof -
    fix x assume "x \<in> set ?es" "?P x"
    then obtain v where v: "v \<in> set users" "x = userEntry sc v" "um_Name v = um_Name u"
      by (auto simp: userEntry_def)
    then have "v = u" using d u by (meson distinct_map inj_onD)
    then show "x = userEntry sc u" using v by simp
  qed
  have z: "?P zeroUserRankingEntry \<Longrightarrow> userKey zeroUserRankingEntry \<le> userKey (userEntry sc u)"
    using ok by (auto simp: zeroUserRankingEntry_def userKey_def userEntry_def less_eq_prod_def)
  have lt: "(userKey (userEntry sc u) < userKey zeroUserRankingEntry) = (sint (getScore sc (um_ID u)) < 0)"
    by (auto simp: zeroUserRankingEntry_def userKey_def userEntry_def less_prod_def)
  show ?thesis
    unfolding userRank_def userRanking_def userRankScan_def fold_append_map
    using rank_with_placeholders [where P = ?P and lt = UserRanking_Less and kf = userKey,
        OF UserRanking_Less_key inj_userKey e P uniq z, of "length users"]
    by (simp add: lt)
qed

lemma livestreamRank_char:
  assumes u: "l \<in> set ls"
    and ok: "lm_ID l \<noteq> 0 \<or> 0 \<le> sint (getScore sc (lm_ID l))"
  shows "livestreamRank ls sc (lm_ID l) =
    1 + (if sint (getScore sc (lm_ID l)) < 0 \<or> (getScore sc (lm_ID l) = 0 \<and> sint (lm_ID l) < 0)
         then length ls else 0)
      + entriesAbove livestreamKey (livestreamEntry sc l) (map (livestreamEntry sc) ls)"
proof -
  let ?P = "\<lambda>entry. lre_LivestreamID entry = lm_ID l"
  let ?es = "map (livestreamEntry sc) ls"
  have e: "livestreamEntry sc l \<in> set ?es" using u by simp
  have P: "?P (livestreamEntry sc l)" by (simp add: livestreamEntry_def)
  have uniq: "\<And>x. x \<in> set ?es \<Longrightarrow> ?P x \<Longrightarrow> x = livestreamEntry sc l"
  proof -
    fix x assume "x \<in> set ?es" "?P x"
    then obtain v where v: "v \<in> set ls" "x = livestreamEntry sc v" "lm_ID v = lm_ID l"
      by (auto simp: livestreamEntry_def)
    then show "x = livestreamEntry sc l" by (simp add: livestreamEntry_def)
  qed
  have z: "?P zeroLivestreamRankingEntry \<Longrightarrow>
      livestreamKey zeroLivestreamRankingEntry \<le> livestreamKey (livestreamEntry sc l)"
    using ok by (auto simp: zeroLivestreamRankingEntry_def livestreamKey_def livestreamEntry_def less_eq_prod_def)
  have lt: "(livestreamKey (livestreamEntry sc l) < livestreamKey zeroLivestreamRankingEntry)
      = (sint (getScore sc (lm_ID l)) < 0 \<or> (getScore sc (lm_ID l) = 0 \<and> sint (lm_ID l) < 0))"
    using sint_eq_iff [of "getScore sc (lm_ID l)" 0]
    by (auto simp: zeroLivestreamRankingEntry_def livestreamKey_def livestreamEntry_def less_prod_def)
  show ?thesis
    unfolding livestreamRank_def livestreamRanking_def livestreamRankScan_def fold_append_map
    using rank_with_placeholders [where P = ?P and lt = LivestreamRanking_Less and kf = livestreamKey,
        OF LivestreamRanking_Less_key inj_livestreamKey e P uniq z, of "length ls"]
    by (simp add: lt)
qed

subsection \<open>The response of the reactions handler\<close>

text \<open>
  \<^bold>\<open>C10.\<close> The claim: for a non-empty list of reaction rows, every assignment
  \<^verbatim>\<open>reactionsResponse[i] = ...\<close> is within the bounds of the slice. The slice is created
  empty (\<^verbatim>\<open>[]Reaction{}\<close>) and never grows, so the assignment at index 0 is already
  out of range: for every non-empty list of rows the response is the run-time panic.
\<close>

theorem C10_response_index_out_of_range:
  "getReactionsHandler_response hashHex (Inr img) (r # rs) tags
     = Inl (Panic ''runtime error: index out of range'')"
  by (simp add: getReactionsHandler_response_def)

subsection \<open>Counting entries above\<close>

lemma entriesAbove_self_less:
  "e \<in> set xs \<Longrightarrow> entriesAbove kf e xs < length xs"
  unfolding entriesAbove_def using length_filter_less [of e xs "\<lambda>x. kf e < kf x"] by simp

lemma entriesAbove_antitone:
  fixes kf :: "'e \<Rightarrow> 'k::linorder"
  shows "b \<in> set xs \<Longrightarrow> kf a < kf b \<Longrightarrow> entriesAbove kf b xs < entriesAbove kf a xs"
  unfolding entriesAbove_def by (rule count_above_antitone)

lemma entriesAbove_split:
  fixes kf :: "'e \<Rightarrow> 'k::linorder"
  assumes "kf a \<le> kf b"
  shows "entriesAbove kf a xs
       = entriesAbove kf b xs + length (filter (\<lambda>x. kf a < kf x \<and> kf x \<le> kf b) xs)"
  using assms unfolding entriesAbove_def by (induction xs) auto

lemma filter_eq_key_single:
  "distinct (map f xs) \<Longrightarrow> b \<in> set xs \<Longrightarrow> filter (\<lambda>v. f v = f b) xs = [b]"
proof (induction xs)
  case Nil
  then show ?case by simp
next
  case (Cons x xs)
  show ?case
  proof (cases "x = b")
    case True
    then have "\<And>v. v \<in> set xs \<Longrightarrow> f v \<noteq> f b" using Cons.prems(1) by (metis distinct.simps(2) imageI list.simps(9) set_map)
    then have "filter (\<lambda>v. f v = f b) xs = []" by (simp add: filter_empty_conv)
    then show ?thesis using True by simp
  next
    case False
    then have "b \<in> set xs" using Cons.prems(2) by simp
    moreover have "f x \<noteq> f b" using Cons.prems(1) calculation by auto
    ultimately show ?thesis using Cons by simp
  qed
qed

lemma length_filter_disj:
  "(\<And>x. x \<in> set xs \<Longrightarrow> \<not> (P x \<and> Q x)) \<Longrightarrow>
   length (filter (\<lambda>x. P x \<or> Q x) xs) = length (filter P xs) + length (filter Q xs)"
  by (induction xs) auto

subsection \<open>Order of the ranks\<close>

lemma userKey_entry [simp]:
  "userKey (userEntry sc u) = (sint (getScore sc (um_ID u)), um_Name u)"
  by (simp add: userKey_def userEntry_def)

lemma livestreamKey_entry [simp]:
  "livestreamKey (livestreamEntry sc l) = (sint (getScore sc (lm_ID l)), sint (lm_ID l))"
  by (simp add: livestreamKey_def livestreamEntry_def)

lemma user_rank_less:
  assumes d: "distinct (map um_Name users)" and a: "a \<in> set users" and b: "b \<in> set users"
    and oka: "um_Name a \<noteq> [] \<or> 0 \<le> sint (getScore sc (um_ID a))"
    and okb: "um_Name b \<noteq> [] \<or> 0 \<le> sint (getScore sc (um_ID b))"
    and lt: "userKey (userEntry sc a) < userKey (userEntry sc b)"
  shows "userRank users sc (um_Name b) < userRank users sc (um_Name a)"
proof -
  have "userEntry sc b \<in> set (map (userEntry sc) users)" using b by simp
  then have "entriesAbove userKey (userEntry sc b) (map (userEntry sc) users)
           < entriesAbove userKey (userEntry sc a) (map (userEntry sc) users)"
    using lt by (rule entriesAbove_antitone)
  moreover have "sint (getScore sc (um_ID a)) \<le> sint (getScore sc (um_ID b))"
    using lt by (auto simp: less_prod_def)
  ultimately show ?thesis
    unfolding userRank_char [OF a d oka] userRank_char [OF b d okb] by auto
qed

lemma livestream_rank_less:
  assumes a: "a \<in> set ls" and b: "b \<in> set ls"
    and oka: "lm_ID a \<noteq> 0 \<or> 0 \<le> sint (getScore sc (lm_ID a))"
    and okb: "lm_ID b \<noteq> 0 \<or> 0 \<le> sint (getScore sc (lm_ID b))"
    and lt: "livestreamKey (livestreamEntry sc a) < livestreamKey (livestreamEntry sc b)"
  shows "livestreamRank ls sc (lm_ID b) < livestreamRank ls sc (lm_ID a)"
proof -
  have "livestreamEntry sc b \<in> set (map (livestreamEntry sc) ls)" using b by simp
  then have "entriesAbove livestreamKey (livestreamEntry sc b) (map (livestreamEntry sc) ls)
           < entriesAbove livestreamKey (livestreamEntry sc a) (map (livestreamEntry sc) ls)"
    using lt by (rule entriesAbove_antitone)
  moreover have "sint (getScore sc (lm_ID b)) < 0 \<or> (getScore sc (lm_ID b) = 0 \<and> sint (lm_ID b) < 0)
    \<Longrightarrow> sint (getScore sc (lm_ID a)) < 0 \<or> (getScore sc (lm_ID a) = 0 \<and> sint (lm_ID a) < 0)"
    using lt sint_eq_iff [of "getScore sc (lm_ID a)" 0] by (auto simp: less_prod_def)
  ultimately show ?thesis
    unfolding livestreamRank_char [OF a oka] livestreamRank_char [OF b okb] by auto
qed

lemma user_rank_tie:
  assumes d: "distinct (map um_Name users)" and a: "a \<in> set users" and b: "b \<in> set users"
    and oka: "um_Name a \<noteq> [] \<or> 0 \<le> sint (getScore sc (um_ID a))"
    and okb: "um_Name b \<noteq> [] \<or> 0 \<le> sint (getScore sc (um_ID b))"
    and eq: "getScore sc (um_ID a) = getScore sc (um_ID b)"
    and lt: "um_Name a < um_Name b"
  shows "userRank users sc (um_Name a) = userRank users sc (um_Name b) + 1
     + length (filter (\<lambda>v. getScore sc (um_ID v) = getScore sc (um_ID a)
                          \<and> um_Name a < um_Name v \<and> um_Name v < um_Name b) users)"
proof -
  let ?ka = "userKey (userEntry sc a)" and ?kb = "userKey (userEntry sc b)"
  let ?btw = "\<lambda>v. getScore sc (um_ID v) = getScore sc (um_ID a)
                          \<and> um_Name a < um_Name v \<and> um_Name v < um_Name b"
  have le: "?ka \<le> ?kb" using eq lt by (simp add: less_eq_prod_def)
  have "length (filter (\<lambda>x. ?ka < userKey x \<and> userKey x \<le> ?kb) (map (userEntry sc) users))
      = length (filter (\<lambda>v. ?ka < userKey (userEntry sc v) \<and> userKey (userEntry sc v) \<le> ?kb) users)"
    by (simp add: filter_map comp_def)
  also have "\<dots> = length (filter (\<lambda>v. ?btw v \<or> um_Name v = um_Name b) users)"
  proof -
    have "\<And>v. v \<in> set users \<Longrightarrow>
        (?ka < userKey (userEntry sc v) \<and> userKey (userEntry sc v) \<le> ?kb)
         = (?btw v \<or> um_Name v = um_Name b)"
    proof -
      fix v assume v: "v \<in> set users"
      have same: "um_Name v = um_Name b \<Longrightarrow> v = b"
        using d v b by (meson distinct_map inj_onD)
      show "(?ka < userKey (userEntry sc v) \<and> userKey (userEntry sc v) \<le> ?kb)
         = (?btw v \<or> um_Name v = um_Name b)"
        using eq lt same sint_eq_iff [of "getScore sc (um_ID v)" "getScore sc (um_ID b)"]
        by (auto simp: less_prod_def less_eq_prod_def)
    qed
    then show ?thesis by (intro arg_cong [where f = length] filter_cong refl)
  qed
  also have "\<dots> = length (filter ?btw users) + length (filter (\<lambda>v. um_Name v = um_Name b) users)"
    by (rule length_filter_disj) auto
  also have "filter (\<lambda>v. um_Name v = um_Name b) users = [b]"
    by (rule filter_eq_key_single [OF d b])
  finally have "entriesAbove userKey (userEntry sc a) (map (userEntry sc) users)
     = entriesAbove userKey (userEntry sc b) (map (userEntry sc) users) + (length (filter ?btw users) + 1)"
    using le entriesAbove_split [of userKey "userEntry sc a" "userEntry sc b" "map (userEntry sc) users"]
    by simp
  then show ?thesis
    unfolding userRank_char [OF a d oka] userRank_char [OF b d okb] using eq by simp
qed

lemma livestream_rank_tie:
  assumes d: "distinct (map lm_ID ls)" and a: "a \<in> set ls" and b: "b \<in> set ls"
    and pa: "0 < sint (lm_ID a)" and pb: "0 < sint (lm_ID b)"
    and eq: "getScore sc (lm_ID a) = getScore sc (lm_ID b)"
    and lt: "sint (lm_ID a) < sint (lm_ID b)"
  shows "livestreamRank ls sc (lm_ID a) = livestreamRank ls sc (lm_ID b) + 1
     + length (filter (\<lambda>v. getScore sc (lm_ID v) = getScore sc (lm_ID a)
                          \<and> sint (lm_ID a) < sint (lm_ID v) \<and> sint (lm_ID v) < sint (lm_ID b)) ls)"
proof -
  let ?ka = "livestreamKey (livestreamEntry sc a)" and ?kb = "livestreamKey (livestreamEntry sc b)"
  let ?btw = "\<lambda>v. getScore sc (lm_ID v) = getScore sc (lm_ID a)
                          \<and> sint (lm_ID a) < sint (lm_ID v) \<and> sint (lm_ID v) < sint (lm_ID b)"
  have oka: "lm_ID a \<noteq> 0 \<or> 0 \<le> sint (getScore sc (lm_ID a))" using pa by auto
  have okb: "lm_ID b \<noteq> 0 \<or> 0 \<le> sint (getScore sc (lm_ID b))" using pb by auto
  have le: "?ka \<le> ?kb" using eq lt by (simp add: less_eq_prod_def)
  have "length (filter (\<lambda>x. ?ka < livestreamKey x \<and> livestreamKey x \<le> ?kb) (map (livestreamEntry sc) ls))
      = length (filter (\<lambda>v. ?ka < livestreamKey (livestreamEntry sc v)
                           \<and> livestreamKey (livestreamEntry sc v) \<le> ?kb) ls)"
    by (simp add: filter_map comp_def)
  also have "\<dots> = length (filter (\<lambda>v. ?btw v \<or> lm_ID v = lm_ID b) ls)"
  proof -
    have "\<And>v. v \<in> set ls \<Longrightarrow>
        (?ka < livestreamKey (livestreamEntry sc v) \<and> livestreamKey (livestreamEntry sc v) \<le> ?kb)
         = (?btw v \<or> lm_ID v = lm_ID b)"
    proof -
      fix v assume v: "v \<in> set ls"
      show "(?ka < livestreamKey (livestreamEntry sc v) \<and> livestreamKey (livestreamEntry sc v) \<le> ?kb)
         = (?btw v \<or> lm_ID v = lm_ID b)"
        using eq lt sint_eq_iff [of "getScore sc (lm_ID v)" "getScore sc (lm_ID b)"]
          sint_eq_iff [of "lm_ID v" "lm_ID b"]
        by (auto simp: less_prod_def less_eq_prod_def)
    qed
    then show ?thesis by (intro arg_cong [where f = length] filter_cong refl)
  qed
  also have "\<dots> = length (filter ?btw ls) + length (filter (\<lambda>v. lm_ID v = lm_ID b) ls)"
    by (rule length_filter_disj) auto
  also have "filter (\<lambda>v. lm_ID v = lm_ID b) ls = [b]"
    by (rule filter_eq_key_single [OF d b])
  finally have "entriesAbove livestreamKey (livestreamEntry sc a) (map (livestreamEntry sc) ls)
     = entriesAbove livestreamKey (livestreamEntry sc b) (map (livestreamEntry sc) ls)
       + (length (filter ?btw ls) + 1)"
    using le entriesAbove_split [of livestreamKey "livestreamEntry sc a" "livestreamEntry sc b"
        "map (livestreamEntry sc) ls"]
    by simp
  then show ?thesis
    unfolding livestreamRank_char [OF a oka] livestreamRank_char [OF b okb]
    using eq pa pb by simp
qed

subsection \<open>Ranks as a permutation, and the zero-valued entries\<close>

lemma ranks_permutation:
  fixes f :: "'a \<Rightarrow> nat"
  assumes d: "distinct xs" and inj: "inj_on f (set xs)"
    and rng: "\<And>x. x \<in> set xs \<Longrightarrow> 1 \<le> f x \<and> f x \<le> length xs"
  shows "mset (map f xs) = mset [1..<Suc (length xs)]"
proof -
  have dm: "distinct (map f xs)" using d inj by (simp add: distinct_map)
  have sub: "set (map f xs) \<subseteq> {1..length xs}" using rng by auto
  have "card (set (map f xs)) = length xs"
    using dm by (metis distinct_card length_map)
  then have "set (map f xs) = {1..length xs}"
    using sub by (intro card_subset_eq) simp_all
  then have "set (map f xs) = set [1..<Suc (length xs)]"
    by auto
  moreover have "distinct [1..<Suc (length xs)]" by (rule distinct_upt)
  ultimately show ?thesis using dm by (metis set_eq_iff_mset_eq_distinct)
qed

lemma user_ranks_permutation:
  assumes d: "distinct (map um_Name users)"
    and nn: "\<And>u. u \<in> set users \<Longrightarrow> 0 \<le> sint (getScore sc (um_ID u))"
  shows "mset (map (\<lambda>u. userRank users sc (um_Name u)) users) = mset [1..<Suc (length users)]"
proof (rule ranks_permutation)
  show "distinct users" using d by (simp add: distinct_map)
  show "inj_on (\<lambda>u. userRank users sc (um_Name u)) (set users)"
  proof (rule inj_onI)
    fix u v assume u: "u \<in> set users" and v: "v \<in> set users"
      and eq: "userRank users sc (um_Name u) = userRank users sc (um_Name v)"
    show "u = v"
    proof (rule ccontr)
      assume "u \<noteq> v"
      then have "um_Name u \<noteq> um_Name v" using d u v by (meson distinct_map inj_onD)
      then have "userKey (userEntry sc u) < userKey (userEntry sc v)
               \<or> userKey (userEntry sc v) < userKey (userEntry sc u)"
        by (auto simp: less_prod_def)
      then show False
        using user_rank_less [OF d u v, of sc] user_rank_less [OF d v u, of sc] nn [OF u] nn [OF v] eq
        by auto
    qed
  qed
  fix u assume u: "u \<in> set users"
  have "entriesAbove userKey (userEntry sc u) (map (userEntry sc) users) < length (map (userEntry sc) users)"
    by (rule entriesAbove_self_less) (use u in simp)
  then show "1 \<le> userRank users sc (um_Name u) \<and> userRank users sc (um_Name u) \<le> length users"
    using userRank_char [OF u d, of sc] nn [OF u] by simp
qed

lemma livestream_ranks_permutation:
  assumes d: "distinct (map lm_ID ls)"
    and nn: "\<And>l. l \<in> set ls \<Longrightarrow> 0 \<le> sint (getScore sc (lm_ID l)) \<and> 0 \<le> sint (lm_ID l)"
  shows "mset (map (\<lambda>l. livestreamRank ls sc (lm_ID l)) ls) = mset [1..<Suc (length ls)]"
proof (rule ranks_permutation)
  show "distinct ls" using d by (simp add: distinct_map)
  show "inj_on (\<lambda>l. livestreamRank ls sc (lm_ID l)) (set ls)"
  proof (rule inj_onI)
    fix u v assume u: "u \<in> set ls" and v: "v \<in> set ls"
      and eq: "livestreamRank ls sc (lm_ID u) = livestreamRank ls sc (lm_ID v)"
    show "u = v"
    proof (rule ccontr)
      assume "u \<noteq> v"
      then have "lm_ID u \<noteq> lm_ID v" using d u v by (meson distinct_map inj_onD)
      then have "livestreamKey (livestreamEntry sc u) < livestreamKey (livestreamEntry sc v)
               \<or> livestreamKey (livestreamEntry sc v) < livestreamKey (livestreamEntry sc u)"
        using sint_eq_iff [of "lm_ID u" "lm_ID v"] by (auto simp: less_prod_def)
      then show False
        using livestream_rank_less [OF u v, of sc] livestream_rank_less [OF v u, of sc]
          nn [OF u] nn [OF v] eq
        by auto
    qed
  qed
  fix u assume u: "u \<in> set ls"
  have "entriesAbove livestreamKey (livestreamEntry sc u) (map (livestreamEntry sc) ls)
      < length (map (livestreamEntry sc) ls)"
    by (rule entriesAbove_self_less) (use u in simp)
  moreover have "\<not> (sint (getScore sc (lm_ID u)) < 0 \<or> (getScore sc (lm_ID u) = 0 \<and> sint (lm_ID u) < 0))"
    using nn [OF u] by auto
  ultimately show "1 \<le> livestreamRank ls sc (lm_ID u) \<and> livestreamRank ls sc (lm_ID u) \<le> length ls"
    using livestreamRank_char [OF u, of sc] nn [OF u] by simp
qed

lemma sorted_placeholders_first:
  fixes kf :: "'e \<Rightarrow> 'k::linorder"
  assumes lt: "\<And>a b. lt a b = (kf a < kf b)" and inj: "inj kf"
    and z: "\<And>x. x \<in> set es \<Longrightarrow> kf z \<le> kf x"
  shows "sort_Sort lt (replicate n z @ es) = replicate n z @ sort_Sort lt es"
proof (rule sorted_key_unique [where kf = kf])
  let ?s = "sort_Sort lt es"
  show "inj_on kf (set (replicate n z @ ?s))" using inj by (rule inj_on_subset) simp
  show "mset (sort_Sort lt (replicate n z @ es)) = mset (replicate n z @ ?s)"
    by (simp add: mset_sort_Sort)
  show "sorted (map kf (sort_Sort lt (replicate n z @ es)))"
    unfolding sort_Sort_sort_key [of lt kf, OF lt] by (rule sorted_sort_key)
  have "set ?s = set es" by (metis mset_sort_Sort set_mset_mset)
  moreover have "sorted (map kf ?s)"
    unfolding sort_Sort_sort_key [of lt kf, OF lt] by (rule sorted_sort_key)
  ultimately show "sorted (map kf (replicate n z @ ?s))"
    using z by (auto simp: sorted_append)
qed

lemma scan_skips_placeholders:
  assumes "\<exists>x \<in> set xs. P x"
  shows "rankLoop P (zs @ xs) (length (zs @ xs)) r = rankLoop P xs (length xs) r"
proof -
  from assms obtain x where "x \<in> set (rev xs)" "\<not> \<not> P x" by auto
  then have "takeWhile (\<lambda>e. \<not> P e) (rev xs @ rev zs) = takeWhile (\<lambda>e. \<not> P e) (rev xs)"
    by (rule takeWhile_append1)
  then show ?thesis unfolding rankLoop_takeWhile by simp
qed

lemma scan_found_le_length:
  assumes "\<exists>x \<in> set xs. P x"
  shows "rankLoop P xs (length xs) 1 \<le> length xs"
proof -
  have "takeWhile (\<lambda>e. \<not> P e) (rev xs) \<noteq> rev xs"
    using assms by auto
  moreover have "length (takeWhile (\<lambda>e. \<not> P e) (rev xs)) \<le> length (rev xs)"
    by (rule length_takeWhile_le)
  ultimately have "length (takeWhile (\<lambda>e. \<not> P e) (rev xs)) < length xs"
    by (metis length_rev le_neq_implies_less takeWhile_eq_take take_all_iff order_refl)
  then show ?thesis unfolding rankLoop_takeWhile by simp
qed

lemma user_placeholders_first:
  assumes "\<And>u. u \<in> set users \<Longrightarrow> 0 \<le> sint (getScore sc (um_ID u))"
  shows "userRanking users sc =
     replicate (length users) zeroUserRankingEntry
       @ sort_Sort UserRanking_Less (map (userEntry sc) users)"
  unfolding userRanking_def fold_append_map
proof (rule sorted_placeholders_first [where kf = userKey, OF UserRanking_Less_key inj_userKey])
  fix x assume "x \<in> set (map (userEntry sc) users)"
  then obtain u where "u \<in> set users" "x = userEntry sc u" by auto
  then show "userKey zeroUserRankingEntry \<le> userKey x"
    using assms [of u] by (auto simp: zeroUserRankingEntry_def userKey_def userEntry_def less_eq_prod_def)
qed

lemma livestream_placeholders_first:
  assumes "\<And>l. l \<in> set ls \<Longrightarrow> 0 \<le> sint (getScore sc (lm_ID l)) \<and> 0 \<le> sint (lm_ID l)"
  shows "livestreamRanking ls sc =
     replicate (length ls) zeroLivestreamRankingEntry
       @ sort_Sort LivestreamRanking_Less (map (livestreamEntry sc) ls)"
  unfolding livestreamRanking_def fold_append_map
proof (rule sorted_placeholders_first [where kf = livestreamKey,
      OF LivestreamRanking_Less_key inj_livestreamKey])
  fix x assume "x \<in> set (map (livestreamEntry sc) ls)"
  then obtain l where "l \<in> set ls" "x = livestreamEntry sc l" by auto
  then show "livestreamKey zeroLivestreamRankingEntry \<le> livestreamKey x"
    using assms [of l]
    by (auto simp: zeroLivestreamRankingEntry_def livestreamKey_def livestreamEntry_def less_eq_prod_def)
qed

lemma set_sort_Sort: "set (sort_Sort lt xs) = set xs"
  by (metis mset_sort_Sort set_mset_mset)

lemma user_rank_real:
  assumes nn: "\<And>u. u \<in> set users \<Longrightarrow> 0 \<le> sint (getScore sc (um_ID u))"
    and t: "username \<in> um_Name ` set users"
  shows "userRank users sc username = userRankReal users sc username"
    and "userRank users sc username \<le> length users"
proof -
  let ?P = "\<lambda>entry. ure_Username entry = username"
  let ?s = "sort_Sort UserRanking_Less (map (userEntry sc) users)"
  have ex: "\<exists>x \<in> set ?s. ?P x"
    using t by (auto simp: set_sort_Sort userEntry_def)
  have r: "userRanking users sc = replicate (length users) zeroUserRankingEntry @ ?s"
    by (rule user_placeholders_first [OF nn])
  show eq: "userRank users sc username = userRankReal users sc username"
    unfolding userRank_def userRankReal_def userRankScan_def r
    by (rule scan_skips_placeholders [OF ex])
  have "length ?s = length users" by (metis mset_sort_Sort size_mset length_map)
  then show "userRank users sc username \<le> length users"
    unfolding eq userRankReal_def userRankScan_def
    using scan_found_le_length [where P = ?P, OF ex] by simp
qed

lemma livestream_rank_real:
  assumes nn: "\<And>l. l \<in> set ls \<Longrightarrow> 0 \<le> sint (getScore sc (lm_ID l)) \<and> 0 \<le> sint (lm_ID l)"
    and t: "livestreamID \<in> lm_ID ` set ls"
  shows "livestreamRank ls sc livestreamID = livestreamRankReal ls sc livestreamID"
    and "livestreamRank ls sc livestreamID \<le> length ls"
proof -
  let ?P = "\<lambda>entry. lre_LivestreamID entry = livestreamID"
  let ?s = "sort_Sort LivestreamRanking_Less (map (livestreamEntry sc) ls)"
  have ex: "\<exists>x \<in> set ?s. ?P x"
    using t by (auto simp: set_sort_Sort livestreamEntry_def)
  have r: "livestreamRanking ls sc = replicate (length ls) zeroLivestreamRankingEntry @ ?s"
    by (rule livestream_placeholders_first [OF nn])
  show eq: "livestreamRank ls sc livestreamID = livestreamRankReal ls sc livestreamID"
    unfolding livestreamRank_def livestreamRankReal_def livestreamRankScan_def r
    by (rule scan_skips_placeholders [OF ex])
  have "length ?s = length ls" by (metis mset_sort_Sort size_mset length_map)
  then show "livestreamRank ls sc livestreamID \<le> length ls"
    unfolding eq livestreamRankReal_def livestreamRankScan_def
    using scan_found_le_length [where P = ?P, OF ex] by simp
qed

lemma Nil_less_string: "(xs::string) \<noteq> [] \<Longrightarrow> [] < xs"
  by (cases xs) simp_all

lemma user_placeholder_less:
  "um_Name u \<noteq> [] \<Longrightarrow> 0 \<le> sint (getScore sc (um_ID u)) \<Longrightarrow>
   UserRanking_Less zeroUserRankingEntry (userEntry sc u)"
  unfolding UserRanking_Less_key
  by (auto simp: zeroUserRankingEntry_def userKey_def userEntry_def less_prod_def Nil_less_string)

lemma livestream_placeholder_less:
  "0 < sint (lm_ID l) \<Longrightarrow> 0 \<le> sint (getScore sc (lm_ID l)) \<Longrightarrow>
   LivestreamRanking_Less zeroLivestreamRankingEntry (livestreamEntry sc l)"
  unfolding LivestreamRanking_Less_key
  by (auto simp: zeroLivestreamRankingEntry_def livestreamKey_def livestreamEntry_def less_prod_def)

lemma user_ranks_distinct:
  assumes d: "distinct (map um_Name users)" and ne: "\<forall>u\<in>set users. um_Name u \<noteq> []"
    and u: "u \<in> set users" and v: "v \<in> set users" and uv: "u \<noteq> v"
  shows "userRank users sc (um_Name u) \<noteq> userRank users sc (um_Name v)"
proof -
  have "um_Name u \<noteq> um_Name v" using d u v uv by (meson distinct_map inj_onD)
  then have "userKey (userEntry sc u) < userKey (userEntry sc v)
           \<or> userKey (userEntry sc v) < userKey (userEntry sc u)"
    by (auto simp: less_prod_def)
  then show ?thesis
    using user_rank_less [OF d u v, of sc] user_rank_less [OF d v u, of sc] ne u v by auto
qed

lemma livestream_ranks_distinct:
  assumes d: "distinct (map lm_ID ls)" and ne: "\<forall>l\<in>set ls. 0 < sint (lm_ID l)"
    and u: "u \<in> set ls" and v: "v \<in> set ls" and uv: "u \<noteq> v"
  shows "livestreamRank ls sc (lm_ID u) \<noteq> livestreamRank ls sc (lm_ID v)"
proof -
  have "lm_ID u \<noteq> lm_ID v" using d u v uv by (meson distinct_map inj_onD)
  then have "livestreamKey (livestreamEntry sc u) < livestreamKey (livestreamEntry sc v)
           \<or> livestreamKey (livestreamEntry sc v) < livestreamKey (livestreamEntry sc u)"
    using sint_eq_iff [of "lm_ID u" "lm_ID v"] by (auto simp: less_prod_def)
  moreover have "lm_ID u \<noteq> 0" "lm_ID v \<noteq> 0" using ne u v by auto
  ultimately show ?thesis
    using livestream_rank_less [OF u v, of sc] livestream_rank_less [OF v u, of sc] by auto
qed

section \<open>The claims about the ranking\<close>

lemmas rank_eval = userRank_def userRanking_def userRankScan_def userEntry_def getScore_def
  zeroUserRankingEntry_def UserRanking_Less_def livestreamRank_def livestreamRanking_def
  livestreamRankScan_def livestreamEntry_def zeroLivestreamRankingEntry_def LivestreamRanking_Less_def

lemmas query_eval = selectUserByName_def userReactionJoin_def selectUserReactionCounts_def
  userTipJoin_def selectUserTotalTips_def selectUserLivecommentsCount_def selectUserViewersCount_def
  userEmojiJoin_def emojiBefore_def selectFavoriteEmoji_def getLivestream_def
  livestreamReactionJoin_def selectLivestreamReactionCounts_def livestreamTipJoin_def
  selectLivestreamTotalTips_def selectLivestreamViewersCount_def maxInt64_def livestreamTips_def
  selectMaxTip_def selectTotalReports_def

lemmas handler_eval = getUserStatisticsHandler_def getLivestreamStatisticsHandler_def
  userStatistics_def livestreamStatistics_def userScores_def livestreamScores_def

text \<open>
  \<^bold>\<open>C1.\<close> The claim: for every population with pairwise distinct tie-break keys, every
  entity gets a rank in \<open>1..population size\<close>. Evaluation of the handlers at a
  population of one entity whose only comment carries the tip \<open>-1\<close>: the zero-valued
  entry that \<^verbatim>\<open>make(UserRanking, len(users))\<close> puts into the slice sorts above the entity,
  and the rank reported is 2. The third snapshot has non-negative facts only (one
  reaction, one tip of \<open>2^63 - 1\<close>): the sum wraps to \<open>-2^63\<close>, with the same rank 2.
\<close>

theorem C1_rank_exceeds_population:
  "getUserStatisticsHandler None
     \<lparr>db_users = [\<lparr>um_ID = 1, um_Name = ''a''\<rparr>],
      db_livestreams = [\<lparr>lm_ID = 10, lm_UserID = 1\<rparr>],
      db_reactions = [],
      db_livecomments = [\<lparr>lc_ID = 100, lc_LivestreamID = 10, lc_Tip = -1\<rparr>],
      db_livestream_viewers_history = [],
      db_livecomment_reports = []\<rparr> ''a''
   = Inr \<lparr>ust_Rank = 2, ust_ViewersCount = 0, ust_TotalReactions = 0, ust_TotalLivecomments = 1,
          ust_TotalTip = -1, ust_FavoriteEmoji = []\<rparr>
   \<and> getLivestreamStatisticsHandler None
     \<lparr>db_users = [\<lparr>um_ID = 1, um_Name = ''a''\<rparr>],
      db_livestreams = [\<lparr>lm_ID = 10, lm_UserID = 1\<rparr>],
      db_reactions = [],
      db_livecomments = [\<lparr>lc_ID = 100, lc_LivestreamID = 10, lc_Tip = -1\<rparr>],
      db_livestream_viewers_history = [],
      db_livecomment_reports = []\<rparr> (Some 10)
   = Inr \<lparr>lst_Rank = 2, lst_ViewersCount = 0, lst_TotalReactions = 0, lst_TotalReports = 0,
          lst_MaxTip = -1\<rparr>
   \<and> getUserStatisticsHandler None
     \<lparr>db_users = [\<lparr>um_ID = 1, um_Name = ''a''\<rparr>],
      db_livestreams = [\<lparr>lm_ID = 10, lm_UserID = 1\<rparr>],
      db_reactions = [\<lparr>rm_ID = 7, rm_EmojiName = ''fire'', rm_UserID = 1,
                      rm_LivestreamID = 10, rm_CreatedAt = 0\<rparr>],
      db_livecomments = [\<lparr>lc_ID = 100, lc_LivestreamID = 10, lc_Tip = 9223372036854775807\<rparr>],
      db_livestream_viewers_history = [],
      db_livecomment_reports = []\<rparr> ''a''
   = Inr \<lparr>ust_Rank = 2, ust_ViewersCount = 0, ust_TotalReactions = 1, ust_TotalLivecomments = 1,
          ust_TotalTip = 9223372036854775807, ust_FavoriteEmoji = ''fire''\<rparr>"
  by (simp add: handler_eval query_eval rank_eval)

text \<open>
  \<^bold>\<open>C3.\<close> The claim: a strictly greater score gives a strictly smaller rank. Evaluation
  of the user handler at a population of two users, the one with the empty name having
  the tip total \<open>-2\<close> and user \<open>a\<close> the tip total \<open>-1\<close>: the scan for the empty name stops
  at a zero-valued entry at the end of the slice and reports rank 1, while \<open>a\<close>, whose
  score is greater, gets rank 3.
\<close>

theorem C3_rank_not_monotone:
  "getUserStatisticsHandler None
     \<lparr>db_users = [\<lparr>um_ID = 1, um_Name = []\<rparr>, \<lparr>um_ID = 2, um_Name = ''a''\<rparr>],
      db_livestreams = [\<lparr>lm_ID = 10, lm_UserID = 1\<rparr>, \<lparr>lm_ID = 20, lm_UserID = 2\<rparr>],
      db_reactions = [],
      db_livecomments = [\<lparr>lc_ID = 100, lc_LivestreamID = 10, lc_Tip = -2\<rparr>,
                         \<lparr>lc_ID = 101, lc_LivestreamID = 20, lc_Tip = -1\<rparr>],
      db_livestream_viewers_history = [],
      db_livecomment_reports = []\<rparr> ''a''
   = Inr \<lparr>ust_Rank = 3, ust_ViewersCount = 0, ust_TotalReactions = 0, ust_TotalLivecomments = 1,
          ust_TotalTip = -1, ust_FavoriteEmoji = []\<rparr>
   \<and> getUserStatisticsHandler None
     \<lparr>db_users = [\<lparr>um_ID = 1, um_Name = []\<rparr>, \<lparr>um_ID = 2, um_Name = ''a''\<rparr>],
      db_livestreams = [\<lparr>lm_ID = 10, lm_UserID = 1\<rparr>, \<lparr>lm_ID = 20, lm_UserID = 2\<rparr>],
      db_reactions = [],
      db_livecomments = [\<lparr>lc_ID = 100, lc_LivestreamID = 10, lc_Tip = -2\<rparr>,
                         \<lparr>lc_ID = 101, lc_LivestreamID = 20, lc_Tip = -1\<rparr>],
      db_livestream_viewers_history = [],
      db_livecomment_reports = []\<rparr> []
   = Inr \<lparr>ust_Rank = 1, ust_ViewersCount = 0, ust_TotalReactions = 0, ust_TotalLivecomments = 1,
          ust_TotalTip = -2, ust_FavoriteEmoji = []\<rparr>"
  by (simp add: handler_eval query_eval rank_eval)

text \<open>
  \<^bold>\<open>C2.\<close> The claim: of two entities with equal scores, the one with the larger
  tie-break key gets the smaller rank and the other one the next rank. With three users
  \<open>A\<close>, \<open>B\<close>, \<open>C\<close> of score 10, \<open>C\<close> has rank 1 and \<open>A\<close> has rank 3, not 2.
\<close>

theorem C2_next_rank_counterexample:
  "getScore (fst (userScores 1
        [\<lparr>urc_UserID = 1, urc_ReactionCount = 10\<rparr>, \<lparr>urc_UserID = 2, urc_ReactionCount = 10\<rparr>,
         \<lparr>urc_UserID = 3, urc_ReactionCount = 10\<rparr>] [])) 1
   = getScore (fst (userScores 1
        [\<lparr>urc_UserID = 1, urc_ReactionCount = 10\<rparr>, \<lparr>urc_UserID = 2, urc_ReactionCount = 10\<rparr>,
         \<lparr>urc_UserID = 3, urc_ReactionCount = 10\<rparr>] [])) 3
   \<and> ''A'' < ''C''
   \<and> userRank [\<lparr>um_ID = 1, um_Name = ''A''\<rparr>, \<lparr>um_ID = 2, um_Name = ''B''\<rparr>, \<lparr>um_ID = 3, um_Name = ''C''\<rparr>]
        (fst (userScores 1
        [\<lparr>urc_UserID = 1, urc_ReactionCount = 10\<rparr>, \<lparr>urc_UserID = 2, urc_ReactionCount = 10\<rparr>,
         \<lparr>urc_UserID = 3, urc_ReactionCount = 10\<rparr>] [])) ''C'' = 1
   \<and> userRank [\<lparr>um_ID = 1, um_Name = ''A''\<rparr>, \<lparr>um_ID = 2, um_Name = ''B''\<rparr>, \<lparr>um_ID = 3, um_Name = ''C''\<rparr>]
        (fst (userScores 1
        [\<lparr>urc_UserID = 1, urc_ReactionCount = 10\<rparr>, \<lparr>urc_UserID = 2, urc_ReactionCount = 10\<rparr>,
         \<lparr>urc_UserID = 3, urc_ReactionCount = 10\<rparr>] [])) ''A'' = 3"
  by (simp add: handler_eval rank_eval)

text \<open>
  \<^bold>\<open>C2\<close>, amended. In a population with pairwise distinct, non-empty usernames (resp.
  pairwise distinct, positive livestream ids), of two entities with equal scores the
  one with the larger key has the strictly smaller rank, and the rank of the other is
  larger by one plus the number of entities that have the same score and a key strictly
  between the two: it is the next rank exactly when no tied entity lies between them.
  Two distinct entities never have the same rank.
\<close>

theorem C2_tie_break:
  assumes "distinct (map um_Name users)"
    and "\<forall>u\<in>set users. um_Name u \<noteq> []"
    and "a \<in> set users" and "b \<in> set users"
    and "getScore userScore (um_ID a) = getScore userScore (um_ID b)"
    and "um_Name a < um_Name b"
    and "distinct (map lm_ID livestreams)"
    and "\<forall>l\<in>set livestreams. 0 < sint (lm_ID l)"
    and "la \<in> set livestreams" and "lb \<in> set livestreams"
    and "getScore livestreamScore (lm_ID la) = getScore livestreamScore (lm_ID lb)"
    and "sint (lm_ID la) < sint (lm_ID lb)"
  shows "userRank users userScore (um_Name b) < userRank users userScore (um_Name a)
    \<and> userRank users userScore (um_Name a)
        = userRank users userScore (um_Name b) + 1
          + length (filter (\<lambda>v. getScore userScore (um_ID v) = getScore userScore (um_ID a)
                                \<and> um_Name a < um_Name v \<and> um_Name v < um_Name b) users)
    \<and> (\<forall>u\<in>set users. \<forall>v\<in>set users. u \<noteq> v \<longrightarrow>
          userRank users userScore (um_Name u) \<noteq> userRank users userScore (um_Name v))
    \<and> livestreamRank livestreams livestreamScore (lm_ID lb)
        < livestreamRank livestreams livestreamScore (lm_ID la)
    \<and> livestreamRank livestreams livestreamScore (lm_ID la)
        = livestreamRank livestreams livestreamScore (lm_ID lb) + 1
          + length (filter (\<lambda>v. getScore livestreamScore (lm_ID v) = getScore livestreamScore (lm_ID la)
                                \<and> sint (lm_ID la) < sint (lm_ID v) \<and> sint (lm_ID v) < sint (lm_ID lb))
                      livestreams)
    \<and> (\<forall>u\<in>set livestreams. \<forall>v\<in>set livestreams. u \<noteq> v \<longrightarrow>
          livestreamRank livestreams livestreamScore (lm_ID u)
            \<noteq> livestreamRank livestreams livestreamScore (lm_ID v))"
proof -
  have oka: "um_Name a \<noteq> [] \<or> 0 \<le> sint (getScore userScore (um_ID a))"
    and okb: "um_Name b \<noteq> [] \<or> 0 \<le> sint (getScore userScore (um_ID b))"
    using assms(2,3,4) by auto
  have pa: "0 < sint (lm_ID la)" and pb: "0 < sint (lm_ID lb)"
    using assms(8,9,10) by auto
  have u1: "userRank users userScore (um_Name a)
        = userRank users userScore (um_Name b) + 1
          + length (filter (\<lambda>v. getScore userScore (um_ID v) = getScore userScore (um_ID a)
                                \<and> um_Name a < um_Name v \<and> um_Name v < um_Name b) users)"
    by (rule user_rank_tie [OF assms(1,3,4) oka okb assms(5,6)])
  have u2: "\<forall>u\<in>set users. \<forall>v\<in>set users. u \<noteq> v \<longrightarrow>
          userRank users userScore (um_Name u) \<noteq> userRank users userScore (um_Name v)"
    using user_ranks_distinct [OF assms(1,2)] by blast
  have l1: "livestreamRank livestreams livestreamScore (lm_ID la)
        = livestreamRank livestreams livestreamScore (lm_ID lb) + 1
          + length (filter (\<lambda>v. getScore livestreamScore (lm_ID v) = getScore livestreamScore (lm_ID la)
                                \<and> sint (lm_ID la) < sint (lm_ID v) \<and> sint (lm_ID v) < sint (lm_ID lb))
                      livestreams)"
    by (rule livestream_rank_tie [OF assms(7,9,10) pa pb assms(11,12)])
  have l2: "\<forall>u\<in>set livestreams. \<forall>v\<in>set livestreams. u \<noteq> v \<longrightarrow>
          livestreamRank livestreams livestreamScore (lm_ID u)
            \<noteq> livestreamRank livestreams livestreamScore (lm_ID v)"
    using livestream_ranks_distinct [OF assms(7,8)] by blast
  show ?thesis using u1 u2 l1 l2 by simp
qed

text \<open>
  The example of the spec as a witness: users \<open>A\<close> and \<open>B\<close> with score 10 and \<open>C\<close> with
  score 5 have the ranks 2, 1 and 3; so have the livestreams 1, 2 and 3 with these
  scores.
\<close>

theorem C2_tie_break_witness:
  "distinct (map um_Name [\<lparr>um_ID = 1, um_Name = ''A''\<rparr>, \<lparr>um_ID = 2, um_Name = ''B''\<rparr>,
                          \<lparr>um_ID = 3, um_Name = ''C''\<rparr>])
   \<and> list_all (\<lambda>u. um_Name u \<noteq> [])
         [\<lparr>um_ID = 1, um_Name = ''A''\<rparr>, \<lparr>um_ID = 2, um_Name = ''B''\<rparr>,
          \<lparr>um_ID = 3, um_Name = ''C''\<rparr>]
   \<and> getScore [1 \<mapsto> 10, 2 \<mapsto> 10, 3 \<mapsto> 5] (1::int64) = getScore [1 \<mapsto> 10, 2 \<mapsto> 10, 3 \<mapsto> 5] 2
   \<and> ''A'' < ''B''
   \<and> distinct (map lm_ID [\<lparr>lm_ID = 1, lm_UserID = 1\<rparr>, \<lparr>lm_ID = 2, lm_UserID = 1\<rparr>,
                          \<lparr>lm_ID = 3, lm_UserID = 1\<rparr>])
   \<and> list_all (\<lambda>l. 0 < sint (lm_ID l))
         [\<lparr>lm_ID = 1, lm_UserID = 1\<rparr>, \<lparr>lm_ID = 2, lm_UserID = 1\<rparr>,
          \<lparr>lm_ID = 3, lm_UserID = 1\<rparr>]
   \<and> sint (1::int64) < sint (2::int64)
   \<and> userRank [\<lparr>um_ID = 1, um_Name = ''A''\<rparr>, \<lparr>um_ID = 2, um_Name = ''B''\<rparr>,
                \<lparr>um_ID = 3, um_Name = ''C''\<rparr>] [1 \<mapsto> 10, 2 \<mapsto> 10, 3 \<mapsto> 5] ''B''
     < userRank [\<lparr>um_ID = 1, um_Name = ''A''\<rparr>, \<lparr>um_ID = 2, um_Name = ''B''\<rparr>,
                \<lparr>um_ID = 3, um_Name = ''C''\<rparr>] [1 \<mapsto> 10, 2 \<mapsto> 10, 3 \<mapsto> 5] ''A''
   \<and> livestreamRank [\<lparr>lm_ID = 1, lm_UserID = 1\<rparr>, \<lparr>lm_ID = 2, lm_UserID = 1\<rparr>,
                \<lparr>lm_ID = 3, lm_UserID = 1\<rparr>] [1 \<mapsto> 10, 2 \<mapsto> 10, 3 \<mapsto> 5] 2
     < livestreamRank [\<lparr>lm_ID = 1, lm_UserID = 1\<rparr>, \<lparr>lm_ID = 2, lm_UserID = 1\<rparr>,
                \<lparr>lm_ID = 3, lm_UserID = 1\<rparr>] [1 \<mapsto> 10, 2 \<mapsto> 10, 3 \<mapsto> 5] 1
   \<and> map (userRank [\<lparr>um_ID = 1, um_Name = ''A''\<rparr>, \<lparr>um_ID = 2, um_Name = ''B''\<rparr>,
                \<lparr>um_ID = 3, um_Name = ''C''\<rparr>] [1 \<mapsto> 10, 2 \<mapsto> 10, 3 \<mapsto> 5]) [''A'', ''B'', ''C'']
     = [2, 1, 3]
   \<and> map (livestreamRank [\<lparr>lm_ID = 1, lm_UserID = 1\<rparr>, \<lparr>lm_ID = 2, lm_UserID = 1\<rparr>,
                \<lparr>lm_ID = 3, lm_UserID = 1\<rparr>] [1 \<mapsto> 10, 2 \<mapsto> 10, 3 \<mapsto> 5]) [1, 2, 3]
     = [2, 1, 3]"
proof -
  let ?us = "[\<lparr>um_ID = 1, um_Name = ''A''\<rparr>, \<lparr>um_ID = 2, um_Name = ''B''\<rparr>,
              \<lparr>um_ID = 3, um_Name = ''C''\<rparr>]"
  let ?ls = "[\<lparr>lm_ID = 1, lm_UserID = 1\<rparr>, \<lparr>lm_ID = 2, lm_UserID = 1\<rparr>,
              \<lparr>lm_ID = 3, lm_UserID = 1\<rparr>]"
  let ?sc = "[1 \<mapsto> 10, 2 \<mapsto> 10, 3 \<mapsto> 5] :: scoreMap"
  let ?a = "\<lparr>um_ID = 1, um_Name = ''A''\<rparr>" and ?b = "\<lparr>um_ID = 2, um_Name = ''B''\<rparr>"
  let ?la = "\<lparr>lm_ID = 1, lm_UserID = 1\<rparr>" and ?lb = "\<lparr>lm_ID = 2, lm_UserID = 1\<rparr>"
  have h1: "distinct (map um_Name ?us)" by simp
  have h2: "\<forall>u\<in>set ?us. um_Name u \<noteq> []" by simp
  have h3: "?a \<in> set ?us" and h4: "?b \<in> set ?us" by simp_all
  have h5: "getScore ?sc (um_ID ?a) = getScore ?sc (um_ID ?b)" by (simp add: getScore_def)
  have h6: "um_Name ?a < um_Name ?b" by simp
  have h7: "distinct (map lm_ID ?ls)" by simp
  have h8: "\<forall>l\<in>set ?ls. 0 < sint (lm_ID l)" by simp
  have h9: "?la \<in> set ?ls" and h10: "?lb \<in> set ?ls" by simp_all
  have h11: "getScore ?sc (lm_ID ?la) = getScore ?sc (lm_ID ?lb)" by (simp add: getScore_def)
  have h12: "sint (lm_ID ?la) < sint (lm_ID ?lb)" by simp
  have c: "userRank ?us ?sc ''B'' < userRank ?us ?sc ''A''
      \<and> livestreamRank ?ls ?sc 2 < livestreamRank ?ls ?sc 1"
    using C2_tie_break [OF h1 h2 h3 h4 h5 h6 h7 h8 h9 h10 h11 h12] by simp
  have e1: "map (userRank ?us ?sc) [''A'', ''B'', ''C''] = [2, 1, 3]"
    by (simp add: rank_eval)
  have e2: "map (livestreamRank ?ls ?sc) [1, 2, 3] = [2, 1, 3]"
    by (simp add: rank_eval)
  have g5: "getScore ?sc 1 = getScore ?sc 2" using h5 by simp
  have g6: "''A'' < ''B''" by simp
  have g12: "sint (1::int64) < sint (2::int64)" by simp
  have g2: "list_all (\<lambda>u. um_Name u \<noteq> []) ?us" by simp
  have g8: "list_all (\<lambda>l. 0 < sint (lm_ID l)) ?ls" by simp
  show ?thesis
    by (intro conjI h1 g2 g5 g6 h7 g8 g12 c [THEN conjunct1] c [THEN conjunct2] e1 e2)
qed

text \<open>
  Where every username is non-empty (resp. every livestream id positive) and no score is
  negative, the zero-valued entries that \<^verbatim>\<open>make(..., len)\<close> leaves in the slice do no harm:
  the sorted slice is these entries, as many as the population has entities, followed
  by the sorted real entries; each of them is strictly below every real entry; for a
  target of the population the scan stops among the real entries; and the rank is the
  one computed over the real entries alone.
\<close>

lemma placeholders_below_nonnegative:
  assumes "\<forall>u\<in>set users. um_Name u \<noteq> [] \<and> 0 \<le> sint (getScore userScore (um_ID u))"
    and "username \<in> um_Name ` set users"
    and "\<forall>l\<in>set livestreams. 0 < sint (lm_ID l) \<and> 0 \<le> sint (getScore livestreamScore (lm_ID l))"
    and "livestreamID \<in> lm_ID ` set livestreams"
  shows "userRanking users userScore
           = replicate (length users) zeroUserRankingEntry
             @ sort_Sort UserRanking_Less (map (userEntry userScore) users)
    \<and> (\<forall>u\<in>set users. UserRanking_Less zeroUserRankingEntry (userEntry userScore u))
    \<and> userRank users userScore username \<le> length users
    \<and> userRank users userScore username = userRankReal users userScore username
    \<and> livestreamRanking livestreams livestreamScore
           = replicate (length livestreams) zeroLivestreamRankingEntry
             @ sort_Sort LivestreamRanking_Less (map (livestreamEntry livestreamScore) livestreams)
    \<and> (\<forall>l\<in>set livestreams.
          LivestreamRanking_Less zeroLivestreamRankingEntry (livestreamEntry livestreamScore l))
    \<and> livestreamRank livestreams livestreamScore livestreamID \<le> length livestreams
    \<and> livestreamRank livestreams livestreamScore livestreamID
        = livestreamRankReal livestreams livestreamScore livestreamID"
proof -
  have nu: "\<And>u. u \<in> set users \<Longrightarrow> 0 \<le> sint (getScore userScore (um_ID u))"
    using assms(1) by simp
  have nl: "\<And>l. l \<in> set livestreams \<Longrightarrow>
      0 \<le> sint (getScore livestreamScore (lm_ID l)) \<and> 0 \<le> sint (lm_ID l)"
    using assms(3) by fastforce
  have u1: "userRanking users userScore
           = replicate (length users) zeroUserRankingEntry
             @ sort_Sort UserRanking_Less (map (userEntry userScore) users)"
    by (rule user_placeholders_first [OF nu])
  have u2: "\<forall>u\<in>set users. UserRanking_Less zeroUserRankingEntry (userEntry userScore u)"
    using assms(1) by (simp add: user_placeholder_less)
  have l1: "livestreamRanking livestreams livestreamScore
           = replicate (length livestreams) zeroLivestreamRankingEntry
             @ sort_Sort LivestreamRanking_Less (map (livestreamEntry livestreamScore) livestreams)"
    by (rule livestream_placeholders_first [OF nl])
  have l2: "\<forall>l\<in>set livestreams.
          LivestreamRanking_Less zeroLivestreamRankingEntry (livestreamEntry livestreamScore l)"
    using assms(3) by (simp add: livestream_placeholder_less)
  show ?thesis
    using u1 u2 l1 l2 user_rank_real [OF nu assms(2)] livestream_rank_real [OF nl assms(4)]
    by simp
qed

text \<open>
  \<^bold>\<open>C4.\<close> The claim: the slice holds as many zero-valued entries as the population has
  entities, and when every username is non-empty (resp. every livestream id positive),
  these entries sort strictly below every real entry, the scan finds the target before
  it reaches one of them, and the rank is the rank over the real entries alone.
  Evaluation at user \<open>a\<close> (resp. livestream 10) with the tip total \<open>-1\<close>: the name is
  not empty (the id is positive), but the zero-valued entry is not below the real
  entry, and the rank is 2 where the real entries alone give 1.
\<close>

theorem C4_placeholder_above_real_entry:
  "um_Name \<lparr>um_ID = 1, um_Name = ''a''\<rparr> \<noteq> []
   \<and> \<not> UserRanking_Less zeroUserRankingEntry
         (userEntry (fst (userScores 1 [] [\<lparr>utt_UserID = 1, utt_TotalTip = -1\<rparr>]))
            \<lparr>um_ID = 1, um_Name = ''a''\<rparr>)
   \<and> userRank [\<lparr>um_ID = 1, um_Name = ''a''\<rparr>]
        (fst (userScores 1 [] [\<lparr>utt_UserID = 1, utt_TotalTip = -1\<rparr>])) ''a'' = 2
   \<and> userRankReal [\<lparr>um_ID = 1, um_Name = ''a''\<rparr>]
        (fst (userScores 1 [] [\<lparr>utt_UserID = 1, utt_TotalTip = -1\<rparr>])) ''a'' = 1
   \<and> 0 < sint (lm_ID \<lparr>lm_ID = 10, lm_UserID = 1\<rparr>)
   \<and> \<not> LivestreamRanking_Less zeroLivestreamRankingEntry
         (livestreamEntry
            (fst (livestreamScores 10 [] [\<lparr>ltt_LivestreamID = 10, ltt_TotalTip = -1\<rparr>]))
            \<lparr>lm_ID = 10, lm_UserID = 1\<rparr>)
   \<and> livestreamRank [\<lparr>lm_ID = 10, lm_UserID = 1\<rparr>]
        (fst (livestreamScores 10 [] [\<lparr>ltt_LivestreamID = 10, ltt_TotalTip = -1\<rparr>])) 10 = 2
   \<and> livestreamRankReal [\<lparr>lm_ID = 10, lm_UserID = 1\<rparr>]
        (fst (livestreamScores 10 [] [\<lparr>ltt_LivestreamID = 10, ltt_TotalTip = -1\<rparr>])) 10 = 1"
  by (simp add: handler_eval rank_eval userRankReal_def livestreamRankReal_def)

section \<open>Scores\<close>

lemma find_distinct_key:
  "distinct (map f xs) \<Longrightarrow> x \<in> set xs \<Longrightarrow> find (\<lambda>r. f r = f x) xs = Some x"
proof (induction xs)
  case Nil
  then show ?case by simp
next
  case (Cons y ys)
  show ?case
  proof (cases "y = x")
    case True
    then show ?thesis by simp
  next
    case False
    then have x: "x \<in> set ys" using Cons.prems(2) by simp
    then have "f y \<noteq> f x" using Cons.prems(1) by (metis distinct.simps(2) imageI list.simps(9) set_map)
    then show ?thesis using Cons x by simp
  qed
qed

lemma find_key_None: "(find (\<lambda>r. f r = k) xs = None) = (k \<notin> f ` set xs)"
  by (auto simp: find_None_iff)

lemma factOf_absent: "k \<notin> idOf ` set rows \<Longrightarrow> factOf idOf val rows k = 0"
  using find_key_None [of idOf k rows] by (simp add: factOf_def)

lemma factOf_present:
  "distinct (map idOf rows) \<Longrightarrow> r \<in> set rows \<Longrightarrow> factOf idOf val rows (idOf r) = val r"
  by (simp add: factOf_def find_distinct_key)

lemma factOf_Cons:
  "factOf idOf val (r # rows) k = (if idOf r = k then val r else factOf idOf val rows k)"
  by (simp add: factOf_def)

lemma factOf_perm:
  assumes d: "distinct (map idOf rows)" and m: "mset rows' = mset rows"
  shows "factOf idOf val rows' k = factOf idOf val rows k"
proof -
  have s: "set rows' = set rows" using m by (metis set_mset_mset)
  have d': "distinct (map idOf rows')"
    using d m by (metis mset_map mset_eq_imp_distinct_iff)
  show ?thesis
  proof (cases "k \<in> idOf ` set rows")
    case True
    then obtain r where r: "r \<in> set rows" "k = idOf r" by auto
    then show ?thesis
      using factOf_present [OF d r(1)] factOf_present [OF d', of r] s by simp
  next
    case False
    then show ?thesis using s by (simp add: factOf_absent)
  qed
qed

lemma countLoop_map:
  "distinct (map idOf rows) \<Longrightarrow>
   fst (countLoop idOf cnt t rows (m, tot)) k
     = (if k \<in> idOf ` set rows then Some (factOf idOf cnt rows k) else m k)"
proof (induction rows arbitrary: m tot)
  case Nil
  then show ?case by simp
next
  case (Cons r rows)
  then show ?case by (auto simp: factOf_Cons factOf_absent)
qed

lemma countLoop_total:
  "distinct (map idOf rows) \<Longrightarrow>
   snd (countLoop idOf cnt t rows (m, tot))
     = (if t \<in> idOf ` set rows then factOf idOf cnt rows t else tot)"
proof (induction rows arbitrary: m tot)
  case Nil
  then show ?case by simp
next
  case (Cons r rows)
  then show ?case by (auto simp: factOf_Cons factOf_absent)
qed

lemma tipLoop_score:
  "distinct (map idOf rows) \<Longrightarrow>
   getScore (fst (tipLoop idOf tip t rows (m, tot))) k = getScore m k + factOf idOf tip rows k"
proof (induction rows arbitrary: m tot)
  case Nil
  then show ?case by (simp add: factOf_def)
next
  case (Cons r rows)
  then show ?case by (auto simp: factOf_Cons factOf_absent getScore_def)
qed

lemma tipLoop_total:
  "distinct (map idOf rows) \<Longrightarrow>
   snd (tipLoop idOf tip t rows (m, tot))
     = (if t \<in> idOf ` set rows then factOf idOf tip rows t else tot)"
proof (induction rows arbitrary: m tot)
  case Nil
  then show ?case by simp
next
  case (Cons r rows)
  then show ?case by (auto simp: factOf_Cons factOf_absent)
qed

lemma countLoop_getScore:
  "distinct (map idOf rows) \<Longrightarrow>
   getScore (fst (countLoop idOf cnt t rows (Map.empty, 0))) k = factOf idOf cnt rows k"
  by (simp add: getScore_def countLoop_map factOf_absent)

lemma userScores_score:
  assumes "distinct (map urc_UserID rcs)" "distinct (map utt_UserID tts)"
  shows "getScore (fst (userScores t rcs tts)) k
       = factOf urc_UserID urc_ReactionCount rcs k + factOf utt_UserID utt_TotalTip tts k"
proof -
  obtain m1 tr where c: "countLoop urc_UserID urc_ReactionCount t rcs (Map.empty, 0) = (m1, tr)"
    by (cases "countLoop urc_UserID urc_ReactionCount t rcs (Map.empty, 0)")
  obtain m2 tt where p: "tipLoop utt_UserID utt_TotalTip t tts (m1, 0) = (m2, tt)"
    by (cases "tipLoop utt_UserID utt_TotalTip t tts (m1, 0)")
  have "getScore m1 k = factOf urc_UserID urc_ReactionCount rcs k"
    using countLoop_getScore [OF assms(1), of urc_ReactionCount t k] c by simp
  moreover have "getScore m2 k = getScore m1 k + factOf utt_UserID utt_TotalTip tts k"
    using tipLoop_score [OF assms(2), of utt_TotalTip t m1 0 k] p by simp
  ultimately show ?thesis by (simp add: userScores_def c p)
qed

lemma userScores_totals:
  assumes "distinct (map urc_UserID rcs)" "distinct (map utt_UserID tts)"
  shows "fst (snd (userScores t rcs tts)) = factOf urc_UserID urc_ReactionCount rcs t"
    and "snd (snd (userScores t rcs tts)) = factOf utt_UserID utt_TotalTip tts t"
proof -
  obtain m1 tr where c: "countLoop urc_UserID urc_ReactionCount t rcs (Map.empty, 0) = (m1, tr)"
    by (cases "countLoop urc_UserID urc_ReactionCount t rcs (Map.empty, 0)")
  obtain m2 tt where p: "tipLoop utt_UserID utt_TotalTip t tts (m1, 0) = (m2, tt)"
    by (cases "tipLoop utt_UserID utt_TotalTip t tts (m1, 0)")
  have "tr = factOf urc_UserID urc_ReactionCount rcs t"
    using countLoop_total [OF assms(1), of urc_ReactionCount t Map.empty 0] c
    by (simp add: factOf_absent)
  moreover have "tt = factOf utt_UserID utt_TotalTip tts t"
    using tipLoop_total [OF assms(2), of utt_TotalTip t m1 0] p
    by (simp add: factOf_absent)
  ultimately show "fst (snd (userScores t rcs tts)) = factOf urc_UserID urc_ReactionCount rcs t"
    and "snd (snd (userScores t rcs tts)) = factOf utt_UserID utt_TotalTip tts t"
    by (simp_all add: userScores_def c p)
qed

lemma livestreamScores_score:
  assumes "distinct (map lrc_LivestreamID rcs)" "distinct (map ltt_LivestreamID tts)"
  shows "getScore (fst (livestreamScores t rcs tts)) k
       = factOf lrc_LivestreamID lrc_ReactionCount rcs k + factOf ltt_LivestreamID ltt_TotalTip tts k"
proof -
  obtain m1 tr where c: "countLoop lrc_LivestreamID lrc_ReactionCount t rcs (Map.empty, 0) = (m1, tr)"
    by (cases "countLoop lrc_LivestreamID lrc_ReactionCount t rcs (Map.empty, 0)")
  have "getScore m1 k = factOf lrc_LivestreamID lrc_ReactionCount rcs k"
    using countLoop_getScore [OF assms(1), of lrc_ReactionCount t k] c by simp
  moreover have "getScore (fst (tipLoop ltt_LivestreamID ltt_TotalTip t tts (m1, 0))) k
      = getScore m1 k + factOf ltt_LivestreamID ltt_TotalTip tts k"
    by (rule tipLoop_score [OF assms(2)])
  ultimately show ?thesis by (simp add: livestreamScores_def c)
qed

lemma livestreamScores_total:
  assumes "distinct (map lrc_LivestreamID rcs)"
  shows "snd (livestreamScores t rcs tts) = factOf lrc_LivestreamID lrc_ReactionCount rcs t"
proof -
  obtain m1 tr where c: "countLoop lrc_LivestreamID lrc_ReactionCount t rcs (Map.empty, 0) = (m1, tr)"
    by (cases "countLoop lrc_LivestreamID lrc_ReactionCount t rcs (Map.empty, 0)")
  have "tr = factOf lrc_LivestreamID lrc_ReactionCount rcs t"
    using countLoop_total [OF assms(1), of lrc_ReactionCount t Map.empty 0] c
    by (simp add: factOf_absent)
  then show ?thesis by (simp add: livestreamScores_def c)
qed

lemma sint_add_no_overflow:
  fixes a b :: int64
  assumes "- (2 ^ 63) \<le> sint a + sint b" "sint a + sint b < 2 ^ 63"
  shows "sint (a + b) = sint a + sint b"
  using assms by (simp add: sint_word_add signed_take_bit_int_eq_self)

lemma user_entry_in_ranking:
  "u \<in> set users \<Longrightarrow> userEntry sc u \<in> set (userRanking users sc)"
  by (simp add: userRanking_def fold_append_map set_sort_Sort)

lemma livestream_entry_in_ranking:
  "l \<in> set ls \<Longrightarrow> livestreamEntry sc l \<in> set (livestreamRanking ls sc)"
  by (simp add: livestreamRanking_def fold_append_map set_sort_Sort)

lemma length_userRanking: "length (userRanking users sc) = 2 * length users"
proof -
  have "size (mset (userRanking users sc)) = 2 * length users"
    unfolding userRanking_def mset_sort_Sort fold_append_map by simp
  then show ?thesis by simp
qed

lemma length_livestreamRanking: "length (livestreamRanking ls sc) = 2 * length ls"
proof -
  have "size (mset (livestreamRanking ls sc)) = 2 * length ls"
    unfolding livestreamRanking_def mset_sort_Sort fold_append_map by simp
  then show ?thesis by simp
qed

text \<open>
  \<^bold>\<open>C5.\<close> The claim: the score used for ranking is the event count plus the monetary
  sum. The handler adds the two in \<^verbatim>\<open>int64\<close> (\<^verbatim>\<open>userScore[tt.UserID] += tt.TotalTip\<close>),
  and the addition wraps: with the count 1 and the tip sum \<open>2^63 - 1\<close> the score is
  \<open>-2^63\<close>, while the count plus the sum is \<open>2^63\<close>.
\<close>

theorem C5_overflow_counterexample:
  "sint (getScore (fst (userScores 1 [\<lparr>urc_UserID = 1, urc_ReactionCount = 1\<rparr>]
                          [\<lparr>utt_UserID = 1, utt_TotalTip = 9223372036854775807\<rparr>])) 1)
     = - 9223372036854775808
   \<and> sint (factOf urc_UserID urc_ReactionCount [\<lparr>urc_UserID = 1, urc_ReactionCount = 1\<rparr>] 1)
     + sint (factOf utt_UserID utt_TotalTip [\<lparr>utt_UserID = 1, utt_TotalTip = 9223372036854775807\<rparr>] 1)
     = 9223372036854775808"
  by (simp add: userScores_def getScore_def factOf_def)

text \<open>
  \<^bold>\<open>C5\<close>, amended. The rows of each aggregate query have pairwise distinct ids
  (\<^verbatim>\<open>GROUP BY\<close>). Then the score that the handler looks up for an id is the count of that
  id plus its tip sum in \<^verbatim>\<open>int64\<close> arithmetic (modulo \<open>2^64\<close>), an id without a row
  counting as 0; it is the sum of the two integers whenever that sum fits into an
  \<^verbatim>\<open>int64\<close>. The rank of the result is computed from this score map, and the ranking
  holds, for every user (resp. livestream) of the population, the entry with its key
  and this score, also when the id has no row at all.
\<close>

theorem C5_score_is_count_plus_sum:
  assumes "distinct (map urc_UserID reactionCounts)"
    and "distinct (map utt_UserID totalTips)"
    and "distinct (map lrc_LivestreamID livestreamReactionCounts)"
    and "distinct (map ltt_LivestreamID livestreamTotalTips)"
  shows "(\<forall>k. getScore (fst (userScores (um_ID user) reactionCounts totalTips)) k
             = factOf urc_UserID urc_ReactionCount reactionCounts k
               + factOf utt_UserID utt_TotalTip totalTips k)
    \<and> (\<forall>k. - (2 ^ 63) \<le> sint (factOf urc_UserID urc_ReactionCount reactionCounts k)
                          + sint (factOf utt_UserID utt_TotalTip totalTips k)
           \<and> sint (factOf urc_UserID urc_ReactionCount reactionCounts k)
                          + sint (factOf utt_UserID utt_TotalTip totalTips k) < 2 ^ 63
           \<longrightarrow> sint (getScore (fst (userScores (um_ID user) reactionCounts totalTips)) k)
               = sint (factOf urc_UserID urc_ReactionCount reactionCounts k)
                 + sint (factOf utt_UserID utt_TotalTip totalTips k))
    \<and> ust_Rank (userStatistics user users reactionCounts totalTips totalLivecomments viewersCount
                   favorite username)
        = userRank users (fst (userScores (um_ID user) reactionCounts totalTips)) username
    \<and> (\<forall>u\<in>set users.
          \<lparr>ure_Username = um_Name u,
           ure_Score = factOf urc_UserID urc_ReactionCount reactionCounts (um_ID u)
                       + factOf utt_UserID utt_TotalTip totalTips (um_ID u)\<rparr>
          \<in> set (userRanking users (fst (userScores (um_ID user) reactionCounts totalTips))))
    \<and> (\<forall>k. getScore (fst (livestreamScores livestreamID livestreamReactionCounts livestreamTotalTips)) k
             = factOf lrc_LivestreamID lrc_ReactionCount livestreamReactionCounts k
               + factOf ltt_LivestreamID ltt_TotalTip livestreamTotalTips k)
    \<and> (\<forall>k. - (2 ^ 63) \<le> sint (factOf lrc_LivestreamID lrc_ReactionCount livestreamReactionCounts k)
                          + sint (factOf ltt_LivestreamID ltt_TotalTip livestreamTotalTips k)
           \<and> sint (factOf lrc_LivestreamID lrc_ReactionCount livestreamReactionCounts k)
                          + sint (factOf ltt_LivestreamID ltt_TotalTip livestreamTotalTips k) < 2 ^ 63
           \<longrightarrow> sint (getScore (fst (livestreamScores livestreamID livestreamReactionCounts
                                      livestreamTotalTips)) k)
               = sint (factOf lrc_LivestreamID lrc_ReactionCount livestreamReactionCounts k)
                 + sint (factOf ltt_LivestreamID ltt_TotalTip livestreamTotalTips k))
    \<and> lst_Rank (livestreamStatistics livestreamID livestreams livestreamReactionCounts
                   livestreamTotalTips viewersCount' maxTip totalReports)
        = livestreamRank livestreams
            (fst (livestreamScores livestreamID livestreamReactionCounts livestreamTotalTips))
            livestreamID
    \<and> (\<forall>l\<in>set livestreams.
          \<lparr>lre_LivestreamID = lm_ID l,
           lre_Score = factOf lrc_LivestreamID lrc_ReactionCount livestreamReactionCounts (lm_ID l)
                       + factOf ltt_LivestreamID ltt_TotalTip livestreamTotalTips (lm_ID l)\<rparr>
          \<in> set (livestreamRanking livestreams
                  (fst (livestreamScores livestreamID livestreamReactionCounts livestreamTotalTips))))"
proof -
  let ?sc = "fst (userScores (um_ID user) reactionCounts totalTips)"
  let ?lsc = "fst (livestreamScores livestreamID livestreamReactionCounts livestreamTotalTips)"
  have us: "\<And>k. getScore ?sc k = factOf urc_UserID urc_ReactionCount reactionCounts k
               + factOf utt_UserID utt_TotalTip totalTips k"
    by (rule userScores_score [OF assms(1,2)])
  have ls: "\<And>k. getScore ?lsc k
             = factOf lrc_LivestreamID lrc_ReactionCount livestreamReactionCounts k
               + factOf ltt_LivestreamID ltt_TotalTip livestreamTotalTips k"
    by (rule livestreamScores_score [OF assms(3,4)])
  have ur: "ust_Rank (userStatistics user users reactionCounts totalTips totalLivecomments viewersCount
                   favorite username) = userRank users ?sc username"
    by (simp add: userStatistics_def split: prod.split)
  have lr: "lst_Rank (livestreamStatistics livestreamID livestreams livestreamReactionCounts
                   livestreamTotalTips viewersCount' maxTip totalReports)
        = livestreamRank livestreams ?lsc livestreamID"
    by (simp add: livestreamStatistics_def split: prod.split)
  have ue: "\<forall>u\<in>set users.
          \<lparr>ure_Username = um_Name u,
           ure_Score = factOf urc_UserID urc_ReactionCount reactionCounts (um_ID u)
                       + factOf utt_UserID utt_TotalTip totalTips (um_ID u)\<rparr>
          \<in> set (userRanking users ?sc)"
  proof
    fix u assume "u \<in> set users"
    then have "userEntry ?sc u \<in> set (userRanking users ?sc)" by (rule user_entry_in_ranking)
    then show "\<lparr>ure_Username = um_Name u,
           ure_Score = factOf urc_UserID urc_ReactionCount reactionCounts (um_ID u)
                       + factOf utt_UserID utt_TotalTip totalTips (um_ID u)\<rparr>
          \<in> set (userRanking users ?sc)"
      unfolding userEntry_def us .
  qed
  have le: "\<forall>l\<in>set livestreams.
          \<lparr>lre_LivestreamID = lm_ID l,
           lre_Score = factOf lrc_LivestreamID lrc_ReactionCount livestreamReactionCounts (lm_ID l)
                       + factOf ltt_LivestreamID ltt_TotalTip livestreamTotalTips (lm_ID l)\<rparr>
          \<in> set (livestreamRanking livestreams ?lsc)"
  proof
    fix l assume "l \<in> set livestreams"
    then have "livestreamEntry ?lsc l \<in> set (livestreamRanking livestreams ?lsc)"
      by (rule livestream_entry_in_ranking)
    then show "\<lparr>lre_LivestreamID = lm_ID l,
           lre_Score = factOf lrc_LivestreamID lrc_ReactionCount livestreamReactionCounts (lm_ID l)
                       + factOf ltt_LivestreamID ltt_TotalTip livestreamTotalTips (lm_ID l)\<rparr>
          \<in> set (livestreamRanking livestreams ?lsc)"
      unfolding livestreamEntry_def ls .
  qed
  show ?thesis
    unfolding us ls using ur lr ue le by (simp add: sint_add_no_overflow)
qed

theorem C5_score_is_count_plus_sum_witness:
  "distinct (map urc_UserID [\<lparr>urc_UserID = 1, urc_ReactionCount = 3\<rparr>])
   \<and> distinct (map utt_UserID [\<lparr>utt_UserID = 1, utt_TotalTip = 4\<rparr>, \<lparr>utt_UserID = 2, utt_TotalTip = 5\<rparr>])
   \<and> distinct (map lrc_LivestreamID [\<lparr>lrc_LivestreamID = 1, lrc_ReactionCount = 3\<rparr>])
   \<and> distinct (map ltt_LivestreamID [\<lparr>ltt_LivestreamID = 1, ltt_TotalTip = 4\<rparr>,
                                      \<lparr>ltt_LivestreamID = 2, ltt_TotalTip = 5\<rparr>])
   \<and> map (getScore (fst (userScores 1 [\<lparr>urc_UserID = 1, urc_ReactionCount = 3\<rparr>]
              [\<lparr>utt_UserID = 1, utt_TotalTip = 4\<rparr>, \<lparr>utt_UserID = 2, utt_TotalTip = 5\<rparr>]))) [1, 2, 3]
       = [7, 5, 0]
   \<and> map (getScore (fst (livestreamScores 1 [\<lparr>lrc_LivestreamID = 1, lrc_ReactionCount = 3\<rparr>]
              [\<lparr>ltt_LivestreamID = 1, ltt_TotalTip = 4\<rparr>, \<lparr>ltt_LivestreamID = 2, ltt_TotalTip = 5\<rparr>])))
         [1, 2, 3]
       = [7, 5, 0]"
proof -
  let ?rcs = "[\<lparr>urc_UserID = 1, urc_ReactionCount = 3\<rparr>]"
  let ?tts = "[\<lparr>utt_UserID = 1, utt_TotalTip = 4\<rparr>, \<lparr>utt_UserID = 2, utt_TotalTip = 5\<rparr>]"
  let ?lrcs = "[\<lparr>lrc_LivestreamID = 1, lrc_ReactionCount = 3\<rparr>]"
  let ?ltts = "[\<lparr>ltt_LivestreamID = 1, ltt_TotalTip = 4\<rparr>, \<lparr>ltt_LivestreamID = 2, ltt_TotalTip = 5\<rparr>]"
  have h1: "distinct (map urc_UserID ?rcs)" by simp
  have h2: "distinct (map utt_UserID ?tts)" by simp
  have h3: "distinct (map lrc_LivestreamID ?lrcs)" by simp
  have h4: "distinct (map ltt_LivestreamID ?ltts)" by simp
  note c = C5_score_is_count_plus_sum [OF h1 h2 h3 h4,
      where user = "\<lparr>um_ID = 1, um_Name = ''a''\<rparr>" and livestreamID = 1]
  have u: "\<And>k. getScore (fst (userScores 1 ?rcs ?tts)) k
      = factOf urc_UserID urc_ReactionCount ?rcs k + factOf utt_UserID utt_TotalTip ?tts k"
    using c by simp
  have l: "\<And>k. getScore (fst (livestreamScores 1 ?lrcs ?ltts)) k
      = factOf lrc_LivestreamID lrc_ReactionCount ?lrcs k + factOf ltt_LivestreamID ltt_TotalTip ?ltts k"
    using c by simp
  have e1: "map (getScore (fst (userScores 1 ?rcs ?tts))) [1, 2, 3] = [7, 5, 0]"
    unfolding list.map u by (simp add: factOf_def)
  have e2: "map (getScore (fst (livestreamScores 1 ?lrcs ?ltts))) [1, 2, 3] = [7, 5, 0]"
    unfolding list.map l by (simp add: factOf_def)
  show ?thesis by (intro conjI h1 h2 h3 h4 e1 e2)
qed

section \<open>Determinism\<close>

lemma sort_Sort_mset_cong:
  fixes kf :: "'e \<Rightarrow> 'k::linorder"
  assumes lt: "\<And>a b. lt a b = (kf a < kf b)" and inj: "inj kf"
    and m: "mset xs = mset ys"
  shows "sort_Sort lt xs = sort_Sort lt ys"
proof (rule sorted_key_unique [where kf = kf])
  show "inj_on kf (set (sort_Sort lt ys))" using inj by (rule inj_on_subset) simp
  show "mset (sort_Sort lt xs) = mset (sort_Sort lt ys)" using m by (simp add: mset_sort_Sort)
  show "sorted (map kf (sort_Sort lt ys))"
    unfolding sort_Sort_sort_key [of lt kf, OF lt] by (rule sorted_sort_key)
  show "sorted (map kf (sort_Sort lt xs))"
    unfolding sort_Sort_sort_key [of lt kf, OF lt] by (rule sorted_sort_key)
qed

lemma userEntry_cong:
  "(\<And>k. getScore sc' k = getScore sc k) \<Longrightarrow> userEntry sc' = userEntry sc"
  by (rule ext) (simp add: userEntry_def)

lemma livestreamEntry_cong:
  "(\<And>k. getScore sc' k = getScore sc k) \<Longrightarrow> livestreamEntry sc' = livestreamEntry sc"
  by (rule ext) (simp add: livestreamEntry_def)

lemma userRanking_perm:
  assumes g: "\<And>k. getScore sc' k = getScore sc k" and m: "mset users' = mset users"
  shows "userRanking users' sc' = userRanking users sc"
proof -
  have l: "length users' = length users" using m by (metis size_mset)
  have "mset (map (userEntry sc) users') = mset (map (userEntry sc) users)"
    using m by (metis mset_map)
  then show ?thesis
    unfolding userRanking_def fold_append_map userEntry_cong [OF g] l
    by (intro sort_Sort_mset_cong [where kf = userKey, OF UserRanking_Less_key inj_userKey]) simp
qed

lemma livestreamRanking_perm:
  assumes g: "\<And>k. getScore sc' k = getScore sc k" and m: "mset ls' = mset ls"
  shows "livestreamRanking ls' sc' = livestreamRanking ls sc"
proof -
  have l: "length ls' = length ls" using m by (metis size_mset)
  have "mset (map (livestreamEntry sc) ls') = mset (map (livestreamEntry sc) ls)"
    using m by (metis mset_map)
  then show ?thesis
    unfolding livestreamRanking_def fold_append_map livestreamEntry_cong [OF g] l
    by (intro sort_Sort_mset_cong [where kf = livestreamKey,
          OF LivestreamRanking_Less_key inj_livestreamKey]) simp
qed

lemma distinct_map_perm:
  "mset xs' = mset xs \<Longrightarrow> distinct (map f xs) \<Longrightarrow> distinct (map f xs')"
  by (metis mset_map mset_eq_imp_distinct_iff)

lemma userStatistics_fields:
  "userStatistics user users rcs tts lcs vc fav username =
     \<lparr>ust_Rank = userRank users (fst (userScores (um_ID user) rcs tts)) username,
      ust_ViewersCount = vc,
      ust_TotalReactions = fst (snd (userScores (um_ID user) rcs tts)),
      ust_TotalLivecomments = lcs,
      ust_TotalTip = snd (snd (userScores (um_ID user) rcs tts)),
      ust_FavoriteEmoji = (case fav of None \<Rightarrow> [] | Some e \<Rightarrow> e)\<rparr>"
  by (simp add: userStatistics_def split: prod.split)

lemma livestreamStatistics_fields:
  "livestreamStatistics livestreamID ls rcs tts vc mt tr =
     \<lparr>lst_Rank = livestreamRank ls (fst (livestreamScores livestreamID rcs tts)) livestreamID,
      lst_ViewersCount = vc,
      lst_TotalReactions = snd (livestreamScores livestreamID rcs tts),
      lst_TotalReports = tr,
      lst_MaxTip = mt\<rparr>"
  by (simp add: livestreamStatistics_def split: prod.split)

lemma userStatistics_perm:
  assumes mu: "mset users' = mset users"
    and mr: "mset rcs' = mset rcs" and mt: "mset tts' = mset tts"
    and dr: "distinct (map urc_UserID rcs)" and dt: "distinct (map utt_UserID tts)"
  shows "userStatistics user users' rcs' tts' lcs vc fav username
       = userStatistics user users rcs tts lcs vc fav username"
proof -
  have dr': "distinct (map urc_UserID rcs')" by (rule distinct_map_perm [OF mr dr])
  have dt': "distinct (map utt_UserID tts')" by (rule distinct_map_perm [OF mt dt])
  have g: "\<And>k. getScore (fst (userScores (um_ID user) rcs' tts')) k
              = getScore (fst (userScores (um_ID user) rcs tts)) k"
    unfolding userScores_score [OF dr' dt'] userScores_score [OF dr dt]
    by (simp add: factOf_perm [OF dr mr] factOf_perm [OF dt mt])
  have r: "userRank users' (fst (userScores (um_ID user) rcs' tts')) username
         = userRank users (fst (userScores (um_ID user) rcs tts)) username"
    unfolding userRank_def userRanking_perm [OF g mu] ..
  show ?thesis
    unfolding userStatistics_fields r userScores_totals [OF dr' dt'] userScores_totals [OF dr dt]
    by (simp add: factOf_perm [OF dr mr] factOf_perm [OF dt mt])
qed

lemma livestreamStatistics_perm:
  assumes mu: "mset ls' = mset ls"
    and mr: "mset rcs' = mset rcs" and mt: "mset tts' = mset tts"
    and dr: "distinct (map lrc_LivestreamID rcs)" and dt: "distinct (map ltt_LivestreamID tts)"
  shows "livestreamStatistics livestreamID ls' rcs' tts' vc mx tr
       = livestreamStatistics livestreamID ls rcs tts vc mx tr"
proof -
  have dr': "distinct (map lrc_LivestreamID rcs')" by (rule distinct_map_perm [OF mr dr])
  have dt': "distinct (map ltt_LivestreamID tts')" by (rule distinct_map_perm [OF mt dt])
  have g: "\<And>k. getScore (fst (livestreamScores livestreamID rcs' tts')) k
              = getScore (fst (livestreamScores livestreamID rcs tts)) k"
    unfolding livestreamScores_score [OF dr' dt'] livestreamScores_score [OF dr dt]
    by (simp add: factOf_perm [OF dr mr] factOf_perm [OF dt mt])
  have r: "livestreamRank ls' (fst (livestreamScores livestreamID rcs' tts')) livestreamID
         = livestreamRank ls (fst (livestreamScores livestreamID rcs tts)) livestreamID"
    unfolding livestreamRank_def livestreamRanking_perm [OF g mu] ..
  show ?thesis
    unfolding livestreamStatistics_fields r livestreamScores_total [OF dr']
      livestreamScores_total [OF dr]
    by (simp add: factOf_perm [OF dr mr])
qed

text \<open>
  \<^bold>\<open>C9.\<close> A handler is a function of the snapshot, so two runs can differ only where
  the snapshot leaves a choice: the order in which the queries without \<^verbatim>\<open>ORDER BY\<close>
  return their rows (the population, the reaction counts, the tip sums), and the order
  in which the unstable \<^verbatim>\<open>sort.Sort\<close> leaves entries that compare equal. Neither changes
  the result: for aggregate rows with pairwise distinct ids (\<^verbatim>\<open>GROUP BY\<close>), the
  statistics computed from any rearrangement of the rows are the same, and the scan of
  any ascending rearrangement of the slice gives the same rank.
\<close>

theorem C9_statistics_deterministic:
  assumes "mset users' = mset users"
    and "mset reactionCounts' = mset reactionCounts"
    and "mset totalTips' = mset totalTips"
    and "distinct (map urc_UserID reactionCounts)"
    and "distinct (map utt_UserID totalTips)"
    and "mset livestreams' = mset livestreams"
    and "mset livestreamReactionCounts' = mset livestreamReactionCounts"
    and "mset livestreamTotalTips' = mset livestreamTotalTips"
    and "distinct (map lrc_LivestreamID livestreamReactionCounts)"
    and "distinct (map ltt_LivestreamID livestreamTotalTips)"
  shows "userStatistics user users' reactionCounts' totalTips' totalLivecomments viewersCount
           favorite username
         = userStatistics user users reactionCounts totalTips totalLivecomments viewersCount
           favorite username
    \<and> (\<forall>ranking.
          mset ranking = mset (replicate (length users) zeroUserRankingEntry
                               @ map (userEntry userScore) users)
          \<and> sorted_wrt (\<lambda>a b. \<not> UserRanking_Less b a) ranking
          \<longrightarrow> userRankScan ranking username = userRank users userScore username)
    \<and> livestreamStatistics livestreamID livestreams' livestreamReactionCounts'
           livestreamTotalTips' viewersCount' maxTip totalReports
         = livestreamStatistics livestreamID livestreams livestreamReactionCounts
           livestreamTotalTips viewersCount' maxTip totalReports
    \<and> (\<forall>ranking.
          mset ranking = mset (replicate (length livestreams) zeroLivestreamRankingEntry
                               @ map (livestreamEntry livestreamScore) livestreams)
          \<and> sorted_wrt (\<lambda>a b. \<not> LivestreamRanking_Less b a) ranking
          \<longrightarrow> livestreamRankScan ranking livestreamID
              = livestreamRank livestreams livestreamScore livestreamID)"
proof -
  have u: "userStatistics user users' reactionCounts' totalTips' totalLivecomments viewersCount
           favorite username
         = userStatistics user users reactionCounts totalTips totalLivecomments viewersCount
           favorite username"
    by (rule userStatistics_perm [OF assms(1,2,3,4,5)])
  have l: "livestreamStatistics livestreamID livestreams' livestreamReactionCounts'
           livestreamTotalTips' viewersCount' maxTip totalReports
         = livestreamStatistics livestreamID livestreams livestreamReactionCounts
           livestreamTotalTips viewersCount' maxTip totalReports"
    by (rule livestreamStatistics_perm [OF assms(6,7,8,9,10)])
  have us: "\<forall>ranking.
          mset ranking = mset (replicate (length users) zeroUserRankingEntry
                               @ map (userEntry userScore) users)
          \<and> sorted_wrt (\<lambda>a b. \<not> UserRanking_Less b a) ranking
          \<longrightarrow> userRankScan ranking username = userRank users userScore username"
    unfolding userRank_def userRanking_def fold_append_map
    using UserRanking_sort_unique by blast
  have ls: "\<forall>ranking.
          mset ranking = mset (replicate (length livestreams) zeroLivestreamRankingEntry
                               @ map (livestreamEntry livestreamScore) livestreams)
          \<and> sorted_wrt (\<lambda>a b. \<not> LivestreamRanking_Less b a) ranking
          \<longrightarrow> livestreamRankScan ranking livestreamID
              = livestreamRank livestreams livestreamScore livestreamID"
    unfolding livestreamRank_def livestreamRanking_def fold_append_map
    using LivestreamRanking_sort_unique by blast
  show ?thesis using u l us ls by blast
qed

theorem C9_statistics_deterministic_witness:
  "mset [\<lparr>um_ID = 2, um_Name = ''b''\<rparr>, \<lparr>um_ID = 1, um_Name = ''a''\<rparr>]
     = mset [\<lparr>um_ID = 1, um_Name = ''a''\<rparr>, \<lparr>um_ID = 2, um_Name = ''b''\<rparr>]
   \<and> distinct (map urc_UserID [\<lparr>urc_UserID = 1, urc_ReactionCount = 3\<rparr>,
                                \<lparr>urc_UserID = 2, urc_ReactionCount = 4\<rparr>])
   \<and> distinct (map utt_UserID [\<lparr>utt_UserID = 1, utt_TotalTip = 5\<rparr>,
                                \<lparr>utt_UserID = 2, utt_TotalTip = 1\<rparr>])
   \<and> userStatistics \<lparr>um_ID = 1, um_Name = ''a''\<rparr>
        [\<lparr>um_ID = 2, um_Name = ''b''\<rparr>, \<lparr>um_ID = 1, um_Name = ''a''\<rparr>]
        [\<lparr>urc_UserID = 2, urc_ReactionCount = 4\<rparr>, \<lparr>urc_UserID = 1, urc_ReactionCount = 3\<rparr>]
        [\<lparr>utt_UserID = 2, utt_TotalTip = 1\<rparr>, \<lparr>utt_UserID = 1, utt_TotalTip = 5\<rparr>]
        0 0 None ''a''
     = userStatistics \<lparr>um_ID = 1, um_Name = ''a''\<rparr>
        [\<lparr>um_ID = 1, um_Name = ''a''\<rparr>, \<lparr>um_ID = 2, um_Name = ''b''\<rparr>]
        [\<lparr>urc_UserID = 1, urc_ReactionCount = 3\<rparr>, \<lparr>urc_UserID = 2, urc_ReactionCount = 4\<rparr>]
        [\<lparr>utt_UserID = 1, utt_TotalTip = 5\<rparr>, \<lparr>utt_UserID = 2, utt_TotalTip = 1\<rparr>]
        0 0 None ''a''
   \<and> livestreamStatistics 1
        [\<lparr>lm_ID = 2, lm_UserID = 1\<rparr>, \<lparr>lm_ID = 1, lm_UserID = 1\<rparr>]
        [\<lparr>lrc_LivestreamID = 2, lrc_ReactionCount = 4\<rparr>, \<lparr>lrc_LivestreamID = 1, lrc_ReactionCount = 3\<rparr>]
        [\<lparr>ltt_LivestreamID = 2, ltt_TotalTip = 1\<rparr>, \<lparr>ltt_LivestreamID = 1, ltt_TotalTip = 5\<rparr>]
        0 0 0
     = livestreamStatistics 1
        [\<lparr>lm_ID = 1, lm_UserID = 1\<rparr>, \<lparr>lm_ID = 2, lm_UserID = 1\<rparr>]
        [\<lparr>lrc_LivestreamID = 1, lrc_ReactionCount = 3\<rparr>, \<lparr>lrc_LivestreamID = 2, lrc_ReactionCount = 4\<rparr>]
        [\<lparr>ltt_LivestreamID = 1, ltt_TotalTip = 5\<rparr>, \<lparr>ltt_LivestreamID = 2, ltt_TotalTip = 1\<rparr>]
        0 0 0
   \<and> ust_Rank (userStatistics \<lparr>um_ID = 1, um_Name = ''a''\<rparr>
        [\<lparr>um_ID = 1, um_Name = ''a''\<rparr>, \<lparr>um_ID = 2, um_Name = ''b''\<rparr>]
        [\<lparr>urc_UserID = 1, urc_ReactionCount = 3\<rparr>, \<lparr>urc_UserID = 2, urc_ReactionCount = 4\<rparr>]
        [\<lparr>utt_UserID = 1, utt_TotalTip = 5\<rparr>, \<lparr>utt_UserID = 2, utt_TotalTip = 1\<rparr>]
        0 0 None ''a'') = 1"
proof -
  let ?us = "[\<lparr>um_ID = 1, um_Name = ''a''\<rparr>, \<lparr>um_ID = 2, um_Name = ''b''\<rparr>]"
  let ?us' = "[\<lparr>um_ID = 2, um_Name = ''b''\<rparr>, \<lparr>um_ID = 1, um_Name = ''a''\<rparr>]"
  let ?rc = "[\<lparr>urc_UserID = 1, urc_ReactionCount = 3\<rparr>, \<lparr>urc_UserID = 2, urc_ReactionCount = 4\<rparr>]"
  let ?rc' = "[\<lparr>urc_UserID = 2, urc_ReactionCount = 4\<rparr>, \<lparr>urc_UserID = 1, urc_ReactionCount = 3\<rparr>]"
  let ?tt = "[\<lparr>utt_UserID = 1, utt_TotalTip = 5\<rparr>, \<lparr>utt_UserID = 2, utt_TotalTip = 1\<rparr>]"
  let ?tt' = "[\<lparr>utt_UserID = 2, utt_TotalTip = 1\<rparr>, \<lparr>utt_UserID = 1, utt_TotalTip = 5\<rparr>]"
  let ?ls = "[\<lparr>lm_ID = 1, lm_UserID = 1\<rparr>, \<lparr>lm_ID = 2, lm_UserID = 1\<rparr>]"
  let ?ls' = "[\<lparr>lm_ID = 2, lm_UserID = 1\<rparr>, \<lparr>lm_ID = 1, lm_UserID = 1\<rparr>]"
  let ?lrc = "[\<lparr>lrc_LivestreamID = 1, lrc_ReactionCount = 3\<rparr>, \<lparr>lrc_LivestreamID = 2, lrc_ReactionCount = 4\<rparr>]"
  let ?lrc' = "[\<lparr>lrc_LivestreamID = 2, lrc_ReactionCount = 4\<rparr>, \<lparr>lrc_LivestreamID = 1, lrc_ReactionCount = 3\<rparr>]"
  let ?ltt = "[\<lparr>ltt_LivestreamID = 1, ltt_TotalTip = 5\<rparr>, \<lparr>ltt_LivestreamID = 2, ltt_TotalTip = 1\<rparr>]"
  let ?ltt' = "[\<lparr>ltt_LivestreamID = 2, ltt_TotalTip = 1\<rparr>, \<lparr>ltt_LivestreamID = 1, ltt_TotalTip = 5\<rparr>]"
  have h1: "mset ?us' = mset ?us" by simp
  have h2: "mset ?rc' = mset ?rc" by simp
  have h3: "mset ?tt' = mset ?tt" by simp
  have h4: "distinct (map urc_UserID ?rc)" by simp
  have h5: "distinct (map utt_UserID ?tt)" by simp
  have h6: "mset ?ls' = mset ?ls" by simp
  have h7: "mset ?lrc' = mset ?lrc" by simp
  have h8: "mset ?ltt' = mset ?ltt" by simp
  have h9: "distinct (map lrc_LivestreamID ?lrc)" by simp
  have h10: "distinct (map ltt_LivestreamID ?ltt)" by simp
  note c = C9_statistics_deterministic [OF h1 h2 h3 h4 h5 h6 h7 h8 h9 h10]
  have c1: "userStatistics \<lparr>um_ID = 1, um_Name = ''a''\<rparr> ?us' ?rc' ?tt' 0 0 None ''a''
      = userStatistics \<lparr>um_ID = 1, um_Name = ''a''\<rparr> ?us ?rc ?tt 0 0 None ''a''"
    using c by (rule conjunct1)
  have c2: "livestreamStatistics 1 ?ls' ?lrc' ?ltt' 0 0 0 = livestreamStatistics 1 ?ls ?lrc ?ltt 0 0 0"
    using c by blast
  have e: "ust_Rank (userStatistics \<lparr>um_ID = 1, um_Name = ''a''\<rparr> ?us ?rc ?tt 0 0 None ''a'') = 1"
    by (simp add: handler_eval rank_eval)
  show ?thesis by (intro conjI h1 h4 h5 c1 c2 e)
qed

section \<open>The handlers on a snapshot\<close>




















lemma selectUserByName_Some:
  "selectUserByName db username = Some user \<Longrightarrow> user \<in> set (db_users db) \<and> um_Name user = username"
  by (auto simp: selectUserByName_def find_Some_iff)

lemma selectUserByName_distinct:
  "distinct (map um_Name (db_users db)) \<Longrightarrow> user \<in> set (db_users db) \<Longrightarrow>
   selectUserByName db (um_Name user) = Some user"
  unfolding selectUserByName_def by (rule find_distinct_key)

lemma getLivestream_None:
  "(getLivestream db k = None) = (k \<notin> lm_ID ` set (db_livestreams db))"
  by (auto simp: getLivestream_def find_None_iff)




lemma exampleDB_distinct_names: "distinct (map um_Name (db_users exampleDB))"
  by (simp add: exampleDB_def)

lemma exampleDB_distinct_ids: "distinct (map lm_ID (db_livestreams exampleDB))"
  by (simp add: exampleDB_def)

lemma exampleDB_tipSumsFit: "tipSumsFit exampleDB"
  by (simp add: tipSumsFit_def int64Range_def exampleDB_def userTipJoin_def livestreamTipJoin_def)


subsection \<open>Max tip and reports of a livestream\<close>

lemma concat_map_single:
  assumes "distinct (map f xs)" "x \<in> set xs"
    and "\<And>y. y \<in> set xs \<Longrightarrow> f y \<noteq> f x \<Longrightarrow> F y = []"
  shows "concat (map F xs) = F x"
  using assms
proof (induction xs)
  case Nil
  then show ?case by simp
next
  case (Cons y ys)
  show ?case
  proof (cases "y = x")
    case True
    have "\<And>z. z \<in> set ys \<Longrightarrow> F z = []"
    proof -
      fix z assume z: "z \<in> set ys"
      then have "f z \<noteq> f x" using Cons.prems(1) True by (metis distinct.simps(2) imageI list.simps(9) set_map)
      then show "F z = []" using Cons.prems(3) z by simp
    qed
    then have "concat (map F ys) = []" by simp
    then show ?thesis using True by simp
  next
    case False
    then have x: "x \<in> set ys" using Cons.prems(2) by simp
    then have "f y \<noteq> f x" using Cons.prems(1) by (metis distinct.simps(2) imageI list.simps(9) set_map)
    then have "F y = []" using Cons.prems(3) by simp
    moreover have "concat (map F ys) = F x"
      using Cons.IH x Cons.prems(1,3) by simp
    ultimately show ?thesis by simp
  qed
qed

lemma concat_map_if_single:
  "concat (map (\<lambda>x. if P x then [g x] else []) xs) = map g (filter P xs)"
  by (induction xs) simp_all

lemma livestreamTips_commentTips:
  assumes d: "distinct (map lm_ID (db_livestreams db))"
    and k: "k \<in> lm_ID ` set (db_livestreams db)"
  shows "livestreamTips db k = commentTips db k"
proof -
  from k obtain l where l: "l \<in> set (db_livestreams db)" "lm_ID l = k" by auto
  let ?F = "\<lambda>l. concat (map (\<lambda>l2. if lc_LivestreamID l2 = lm_ID l
                                     then if lm_ID l = k then [lc_Tip l2] else [] else [])
                             (db_livecomments db))"
  have "concat (map ?F (db_livestreams db)) = ?F l"
    by (rule concat_map_single [where f = lm_ID, OF d l(1)]) (auto simp: l(2))
  also have "\<dots> = commentTips db k"
    unfolding commentTips_def concat_map_if_single [symmetric] by (simp add: l(2) cong: if_cong)
  finally show ?thesis by (simp add: livestreamTips_def)
qed

lemma selectTotalReports_reportsAgainst:
  assumes d: "distinct (map lm_ID (db_livestreams db))"
    and k: "k \<in> lm_ID ` set (db_livestreams db)"
  shows "selectTotalReports db k = of_nat (length (reportsAgainst db k))"
proof -
  from k obtain l where l: "l \<in> set (db_livestreams db)" "lm_ID l = k" by auto
  let ?F = "\<lambda>l. concat (map (\<lambda>r. if lr_LivestreamID r = lm_ID l
                                     then if lm_ID l = k then [r] else [] else [])
                             (db_livecomment_reports db))"
  have "concat (map ?F (db_livestreams db)) = ?F l"
    by (rule concat_map_single [where f = lm_ID, OF d l(1)]) (auto simp: l(2))
  also have "\<dots> = map (\<lambda>r. r) (reportsAgainst db k)"
    unfolding reportsAgainst_def concat_map_if_single [symmetric] by (simp add: l(2) cong: if_cong)
  finally have "[r. l \<leftarrow> db_livestreams db, r \<leftarrow> db_livecomment_reports db,
            lr_LivestreamID r = lm_ID l, lm_ID l = k] = reportsAgainst db k"
    by simp
  then show ?thesis by (simp add: selectTotalReports_def)
qed

lemma fold_keep_greatest:
  fixes kf :: "'a \<Rightarrow> 'k::linorder"
  assumes step: "\<And>x acc. step x acc = (if kf acc < kf x then x else acc)"
  shows "fold step xs a \<in> set (a # xs) \<and> (\<forall>x\<in>set (a # xs). kf x \<le> kf (fold step xs a))"
proof (induction xs arbitrary: a)
  case Nil
  then show ?case by simp
next
  case (Cons y ys)
  have ih: "fold step ys (step y a) \<in> set (step y a # ys)
      \<and> (\<forall>x\<in>set (step y a # ys). kf x \<le> kf (fold step ys (step y a)))"
    by (rule Cons.IH)
  have s: "step y a \<in> {a, y}" "kf a \<le> kf (step y a)" "kf y \<le> kf (step y a)"
    by (auto simp: step)
  have top: "kf (step y a) \<le> kf (fold step ys (step y a))" using ih by simp
  show ?case
    using ih s top by (auto intro: order_trans)
qed

lemma selectMaxTip_greatest:
  "selectMaxTip db k = (case livestreamTips db k of [] \<Rightarrow> 0 | t # ts \<Rightarrow> fold maxInt64 ts t)"
  by (simp add: selectMaxTip_def)

lemma maxTip_props:
  assumes "livestreamTips db k \<noteq> []"
  shows "selectMaxTip db k \<in> set (livestreamTips db k)
       \<and> (\<forall>t\<in>set (livestreamTips db k). sint t \<le> sint (selectMaxTip db k))"
proof -
  obtain t ts where c: "livestreamTips db k = t # ts"
    using assms by (cases "livestreamTips db k") auto
  have "fold maxInt64 ts t \<in> set (t # ts) \<and> (\<forall>x\<in>set (t # ts). sint x \<le> sint (fold maxInt64 ts t))"
    by (rule fold_keep_greatest) (simp add: maxInt64_def)
  then show ?thesis by (simp add: selectMaxTip_def c)
qed

text \<open>
  \<^bold>\<open>C8.\<close> For a verified session, a snapshot with pairwise distinct livestream ids in
  which every tip sum fits, and a livestream of the snapshot: the handler answers with
  statistics whose max tip is 0 when the livestream has no comment and otherwise is the
  tip of one of its comments that no tip of its comments exceeds, and whose total
  reports is the number of reports against the livestream. Whatever the rows of tip
  sums are, every field of the statistics but the rank is the same: the tip sums reach
  the result through the score only.
\<close>

theorem C8_max_tip_and_reports:
  assumes "distinct (map lm_ID (db_livestreams db))"
    and "tipSumsFit db"
    and "livestreamID \<in> lm_ID ` set (db_livestreams db)"
  shows "\<exists>stats. getLivestreamStatisticsHandler None db (Some livestreamID) = Inr stats
    \<and> (commentTips db livestreamID = [] \<longrightarrow> lst_MaxTip stats = 0)
    \<and> (commentTips db livestreamID \<noteq> [] \<longrightarrow>
          lst_MaxTip stats \<in> set (commentTips db livestreamID)
          \<and> (\<forall>t\<in>set (commentTips db livestreamID). sint t \<le> sint (lst_MaxTip stats)))
    \<and> lst_TotalReports stats = of_nat (length (reportsAgainst db livestreamID))
    \<and> (\<forall>totalTips.
          (livestreamStatistics livestreamID (db_livestreams db) (selectLivestreamReactionCounts db)
             totalTips (selectLivestreamViewersCount db livestreamID)
             (selectMaxTip db livestreamID) (selectTotalReports db livestreamID))
            \<lparr>lst_Rank := 0\<rparr>
          = stats\<lparr>lst_Rank := 0\<rparr>)"
proof -
  let ?stats = "livestreamStatistics livestreamID (db_livestreams db)
      (selectLivestreamReactionCounts db) (selectLivestreamTotalTips db)
      (selectLivestreamViewersCount db livestreamID)
      (selectMaxTip db livestreamID) (selectTotalReports db livestreamID)"
  obtain l where f: "getLivestream db livestreamID = Some l"
    using assms(3) getLivestream_None [of db livestreamID]
    by (cases "getLivestream db livestreamID") auto
  have h: "getLivestreamStatisticsHandler None db (Some livestreamID) = Inr ?stats"
    by (simp add: getLivestreamStatisticsHandler_def f)
  have tips: "livestreamTips db livestreamID = commentTips db livestreamID"
    by (rule livestreamTips_commentTips [OF assms(1,3)])
  have mx: "lst_MaxTip ?stats = selectMaxTip db livestreamID"
    and tr: "lst_TotalReports ?stats = selectTotalReports db livestreamID"
    by (simp_all add: livestreamStatistics_fields)
  have m0: "commentTips db livestreamID = [] \<longrightarrow> lst_MaxTip ?stats = 0"
    unfolding mx using tips by (simp add: selectMaxTip_def)
  have m1: "commentTips db livestreamID \<noteq> [] \<longrightarrow>
          lst_MaxTip ?stats \<in> set (commentTips db livestreamID)
          \<and> (\<forall>t\<in>set (commentTips db livestreamID). sint t \<le> sint (lst_MaxTip ?stats))"
    unfolding mx using maxTip_props [of db livestreamID] tips by simp
  have r: "lst_TotalReports ?stats = of_nat (length (reportsAgainst db livestreamID))"
    unfolding tr by (rule selectTotalReports_reportsAgainst [OF assms(1,3)])
  have t: "\<forall>totalTips.
          (livestreamStatistics livestreamID (db_livestreams db) (selectLivestreamReactionCounts db)
             totalTips (selectLivestreamViewersCount db livestreamID)
             (selectMaxTip db livestreamID) (selectTotalReports db livestreamID))
            \<lparr>lst_Rank := 0\<rparr>
          = ?stats\<lparr>lst_Rank := 0\<rparr>"
    by (simp add: livestreamStatistics_fields livestreamScores_def split: prod.split)
  show ?thesis
    using h m0 m1 r t by blast
qed

theorem C8_max_tip_and_reports_witness:
  "distinct (map lm_ID (db_livestreams exampleDB))
   \<and> tipSumsFit exampleDB
   \<and> 20 \<in> lm_ID ` set (db_livestreams exampleDB)
   \<and> commentTips exampleDB 20 = [100, 50, 0]
   \<and> length (reportsAgainst exampleDB 20) = 2
   \<and> lst_MaxTip (projr (getLivestreamStatisticsHandler None exampleDB (Some 20))) = 100
   \<and> lst_TotalReports (projr (getLivestreamStatisticsHandler None exampleDB (Some 20))) = 2
   \<and> getLivestreamStatisticsHandler None exampleDB (Some 20)
       = Inr \<lparr>lst_Rank = 1, lst_ViewersCount = 1, lst_TotalReactions = 3, lst_TotalReports = 2,
              lst_MaxTip = 100\<rparr>"
proof -
  note h1 = exampleDB_distinct_ids and h2 = exampleDB_tipSumsFit
  have h3: "20 \<in> lm_ID ` set (db_livestreams exampleDB)" by (simp add: exampleDB_def)
  have tips: "commentTips exampleDB 20 = [100, 50, 0]"
    by (simp add: commentTips_def exampleDB_def)
  have reps: "length (reportsAgainst exampleDB 20) = 2"
    by (simp add: reportsAgainst_def exampleDB_def)
  from C8_max_tip_and_reports [OF h1 h2 h3]
  obtain stats where s: "getLivestreamStatisticsHandler None exampleDB (Some 20) = Inr stats"
    and m: "lst_MaxTip stats \<in> set (commentTips exampleDB 20)"
      "\<forall>t\<in>set (commentTips exampleDB 20). sint t \<le> sint (lst_MaxTip stats)"
    and r: "lst_TotalReports stats = of_nat (length (reportsAgainst exampleDB 20))"
    using tips by auto
  have "sint (100 :: int64) \<le> sint (lst_MaxTip stats)" using m(2) tips by simp
  then have mx: "lst_MaxTip stats = 100" using m(1) tips by auto
  have c1: "lst_MaxTip (projr (getLivestreamStatisticsHandler None exampleDB (Some 20))) = 100"
    using s mx by simp
  have c2: "lst_TotalReports (projr (getLivestreamStatisticsHandler None exampleDB (Some 20))) = 2"
    using s r reps by simp
  have e: "getLivestreamStatisticsHandler None exampleDB (Some 20)
       = Inr \<lparr>lst_Rank = 1, lst_ViewersCount = 1, lst_TotalReactions = 3, lst_TotalReports = 2,
              lst_MaxTip = 100\<rparr>"
    by (simp add: exampleDB_def handler_eval query_eval rank_eval)
  show ?thesis by (intro conjI h1 h2 h3 tips reps c1 c2 e)
qed

subsection \<open>The favourite emoji of a user\<close>

lemma mset_filter_disj:
  "(\<And>x. x \<in> set xs \<Longrightarrow> \<not> (P x \<and> Q x)) \<Longrightarrow>
   mset (filter (\<lambda>x. P x \<or> Q x) xs) = mset (filter P xs) + mset (filter Q xs)"
  by (induction xs) auto

lemma join_owned_mset:
  assumes d: "distinct (map lid ls)"
  shows "mset (concat (map (\<lambda>l. if own l then map g (filter (\<lambda>r. rl r = lid l) rs) else []) ls))
       = mset (map g (filter (\<lambda>r. list_ex (\<lambda>l. lid l = rl r \<and> own l) ls) rs))"
  using d
proof (induction ls)
  case Nil
  then show ?case by simp
next
  case (Cons l ls)
  have disj: "\<And>r. r \<in> set rs \<Longrightarrow>
      \<not> ((lid l = rl r \<and> own l) \<and> list_ex (\<lambda>l'. lid l' = rl r \<and> own l') ls)"
    using Cons.prems by (force simp: list_ex_iff)
  have "mset (filter (\<lambda>r. list_ex (\<lambda>l'. lid l' = rl r \<and> own l') (l # ls)) rs)
      = mset (filter (\<lambda>r. lid l = rl r \<and> own l) rs)
        + mset (filter (\<lambda>r. list_ex (\<lambda>l'. lid l' = rl r \<and> own l') ls) rs)"
    using mset_filter_disj [OF disj] by simp
  moreover have "(if own l then filter (\<lambda>r. rl r = lid l) rs else [])
      = filter (\<lambda>r. lid l = rl r \<and> own l) rs"
    by (auto intro: filter_cong)
  ultimately show ?case
    using Cons by (simp del: mset_filter split: if_splits)
qed

lemma userEmojiJoin_single:
  assumes d: "distinct (map um_Name (db_users db))" and u: "user \<in> set (db_users db)"
  shows "userEmojiJoin db (um_Name user)
       = concat (map (\<lambda>l. if lm_UserID l = um_ID user
                           then map rm_EmojiName
                                  (filter (\<lambda>r. rm_LivestreamID r = lm_ID l) (db_reactions db))
                           else [])
                   (db_livestreams db))"
proof -
  let ?G = "\<lambda>u. concat (map (\<lambda>l. if lm_UserID l = um_ID u
                 then concat (map (\<lambda>r. if rm_LivestreamID r = lm_ID l then [rm_EmojiName r] else [])
                                (db_reactions db))
                 else []) (db_livestreams db))"
  let ?F = "\<lambda>u. if um_Name u = um_Name user then ?G u else []"
  have "userEmojiJoin db (um_Name user) = concat (map ?F (db_users db))"
    by (simp add: userEmojiJoin_def)
  also have "\<dots> = ?F user"
    by (rule concat_map_single [where f = um_Name, OF d u]) simp
  also have "\<dots> = ?G user" by simp
  finally show ?thesis by (simp add: concat_map_if_single cong: if_cong)
qed

lemma userEmojiJoin_mset:
  assumes d: "distinct (map um_Name (db_users db))" and dl: "distinct (map lm_ID (db_livestreams db))"
    and u: "user \<in> set (db_users db)"
  shows "mset (userEmojiJoin db (um_Name user)) = mset (userReactionEmojis db (um_ID user))"
  unfolding userEmojiJoin_single [OF d u] userReactionEmojis_def
  by (rule join_owned_mset [OF dl])

lemma count_list_mset_cong: "mset xs = mset ys \<Longrightarrow> count_list xs e = count_list ys e"
  by (metis count_mset)

lemma emojiBefore_key:
  "emojiBefore names x best = ((count_list names best, best) < (count_list names x, x))"
  by (auto simp: emojiBefore_def less_prod_def)

lemma favorite_props:
  assumes "userEmojiJoin db username \<noteq> []"
  shows "\<exists>fav. selectFavoriteEmoji db username = Some fav
     \<and> fav \<in> set (userEmojiJoin db username)
     \<and> (\<forall>e. count_list (userEmojiJoin db username) e \<le> count_list (userEmojiJoin db username) fav)
     \<and> (\<forall>e. count_list (userEmojiJoin db username) e = count_list (userEmojiJoin db username) fav
             \<longrightarrow> e \<le> fav)"
proof -
  let ?ns = "userEmojiJoin db username"
  let ?kf = "\<lambda>e. (count_list ?ns e, e)"
  let ?step = "\<lambda>x best. if emojiBefore ?ns x best then x else best"
  obtain g gs where c: "remdups ?ns = g # gs"
    using assms by (cases "remdups ?ns") auto
  let ?fav = "fold ?step gs g"
  have k: "?fav \<in> set (g # gs) \<and> (\<forall>x\<in>set (g # gs). ?kf x \<le> ?kf ?fav)"
    by (rule fold_keep_greatest) (simp add: emojiBefore_key)
  have s: "set (g # gs) = set ?ns" using c by (metis set_remdups)
  have mem: "?fav \<in> set ?ns" using k s by blast
  have le: "\<And>x. x \<in> set ?ns \<Longrightarrow> ?kf x \<le> ?kf ?fav" using k s by blast
  have cnt: "\<And>e. count_list ?ns e \<le> count_list ?ns ?fav"
  proof -
    fix e show "count_list ?ns e \<le> count_list ?ns ?fav"
    proof (cases "e \<in> set ?ns")
      case True
      then show ?thesis using le [of e] by (auto simp: less_eq_prod_def)
    next
      case False
      then show ?thesis by (simp add: count_list_0_iff)
    qed
  qed
  have tie: "\<And>e. count_list ?ns e = count_list ?ns ?fav \<Longrightarrow> e \<le> ?fav"
  proof -
    fix e assume eq: "count_list ?ns e = count_list ?ns ?fav"
    have "count_list ?ns ?fav \<noteq> 0" using mem by (simp add: count_list_0_iff)
    then have "e \<in> set ?ns" using eq by (metis count_list_0_iff)
    then show "e \<le> ?fav" using le [of e] eq by (auto simp: less_eq_prod_def)
  qed
  have "selectFavoriteEmoji db username = Some ?fav"
    by (simp add: selectFavoriteEmoji_def c)
  then show ?thesis using mem cnt tie by blast
qed

text \<open>
  \<^bold>\<open>C7.\<close> For a verified session, a snapshot with pairwise distinct usernames and
  livestream ids in which every tip sum fits, and a user of the snapshot: the handler
  answers with statistics whose favourite emoji is empty when no livestream of the user
  has a reaction, and otherwise is the emoji name of one of these reactions such that no
  emoji name occurs more often among them and every emoji name that occurs as often is
  lexicographically at most the favourite.
\<close>

theorem C7_favorite_emoji:
  assumes "distinct (map um_Name (db_users db))"
    and "distinct (map lm_ID (db_livestreams db))"
    and "tipSumsFit db"
    and "user \<in> set (db_users db)"
  shows "\<exists>stats. getUserStatisticsHandler None db (um_Name user) = Inr stats
    \<and> (userReactionEmojis db (um_ID user) = [] \<longrightarrow> ust_FavoriteEmoji stats = [])
    \<and> (userReactionEmojis db (um_ID user) \<noteq> [] \<longrightarrow>
          ust_FavoriteEmoji stats \<in> set (userReactionEmojis db (um_ID user))
          \<and> (\<forall>e. count_list (userReactionEmojis db (um_ID user)) e
                   \<le> count_list (userReactionEmojis db (um_ID user)) (ust_FavoriteEmoji stats))
          \<and> (\<forall>e. count_list (userReactionEmojis db (um_ID user)) e
                   = count_list (userReactionEmojis db (um_ID user)) (ust_FavoriteEmoji stats)
                   \<longrightarrow> e \<le> ust_FavoriteEmoji stats))"
proof -
  let ?ns = "userEmojiJoin db (um_Name user)" and ?es = "userReactionEmojis db (um_ID user)"
  let ?stats = "userStatistics user (db_users db)
      (selectUserReactionCounts db) (selectUserTotalTips db)
      (selectUserLivecommentsCount db (um_ID user)) (selectUserViewersCount db (um_ID user))
      (selectFavoriteEmoji db (um_Name user)) (um_Name user)"
  have f: "selectUserByName db (um_Name user) = Some user"
    by (rule selectUserByName_distinct [OF assms(1,4)])
  have h: "getUserStatisticsHandler None db (um_Name user) = Inr ?stats"
    by (simp add: getUserStatisticsHandler_def f)
  have fe: "ust_FavoriteEmoji ?stats
      = (case selectFavoriteEmoji db (um_Name user) of None \<Rightarrow> [] | Some e \<Rightarrow> e)"
    by (simp add: userStatistics_fields)
  have m: "mset ?ns = mset ?es" by (rule userEmojiJoin_mset [OF assms(1,2,4)])
  have s: "set ?ns = set ?es" using m by (metis set_mset_mset)
  have c: "\<And>e. count_list ?ns e = count_list ?es e" by (rule count_list_mset_cong [OF m])
  have nil: "(?ns = []) = (?es = [])" using m by (metis mset_zero_iff)
  have a: "?es = [] \<longrightarrow> ust_FavoriteEmoji ?stats = []"
  proof
    assume "?es = []"
    then have "?ns = []" using nil by simp
    then show "ust_FavoriteEmoji ?stats = []"
      unfolding fe by (simp add: selectFavoriteEmoji_def)
  qed
  have b: "?es \<noteq> [] \<longrightarrow>
          ust_FavoriteEmoji ?stats \<in> set ?es
          \<and> (\<forall>e. count_list ?es e \<le> count_list ?es (ust_FavoriteEmoji ?stats))
          \<and> (\<forall>e. count_list ?es e = count_list ?es (ust_FavoriteEmoji ?stats)
                   \<longrightarrow> e \<le> ust_FavoriteEmoji ?stats)"
  proof
    assume "?es \<noteq> []"
    then have "?ns \<noteq> []" using nil by simp
    from favorite_props [OF this] obtain fav
      where fav: "selectFavoriteEmoji db (um_Name user) = Some fav" "fav \<in> set ?ns"
        "\<forall>e. count_list ?ns e \<le> count_list ?ns fav"
        "\<forall>e. count_list ?ns e = count_list ?ns fav \<longrightarrow> e \<le> fav"
      by blast
    have "ust_FavoriteEmoji ?stats = fav" unfolding fe by (simp add: fav(1))
    then show "ust_FavoriteEmoji ?stats \<in> set ?es
          \<and> (\<forall>e. count_list ?es e \<le> count_list ?es (ust_FavoriteEmoji ?stats))
          \<and> (\<forall>e. count_list ?es e = count_list ?es (ust_FavoriteEmoji ?stats)
                   \<longrightarrow> e \<le> ust_FavoriteEmoji ?stats)"
      using fav(2,3,4) s c by simp
  qed
  show ?thesis using h a b by blast
qed

theorem C7_favorite_emoji_witness:
  "distinct (map um_Name (db_users exampleDB))
   \<and> distinct (map lm_ID (db_livestreams exampleDB))
   \<and> tipSumsFit exampleDB
   \<and> \<lparr>um_ID = 2, um_Name = ''b''\<rparr> \<in> set (db_users exampleDB)
   \<and> count_list (userReactionEmojis exampleDB 2) ''fire'' = 3
   \<and> count_list (userReactionEmojis exampleDB 2) ''heart'' = 3
   \<and> ust_FavoriteEmoji (projr (getUserStatisticsHandler None exampleDB ''b'')) = ''heart''
   \<and> getUserStatisticsHandler None exampleDB ''b''
       = Inr \<lparr>ust_Rank = 1, ust_ViewersCount = 1, ust_TotalReactions = 6,
              ust_TotalLivecomments = 3, ust_TotalTip = 150, ust_FavoriteEmoji = ''heart''\<rparr>
   \<and> ust_FavoriteEmoji (projr (getUserStatisticsHandler None exampleDB ''c'')) = []"
proof -
  note h1 = exampleDB_distinct_names and h2 = exampleDB_distinct_ids and h3 = exampleDB_tipSumsFit
  have h4: "\<lparr>um_ID = 2, um_Name = ''b''\<rparr> \<in> set (db_users exampleDB)"
    and h5: "\<lparr>um_ID = 3, um_Name = ''c''\<rparr> \<in> set (db_users exampleDB)"
    by (simp_all add: exampleDB_def)
  have es: "userReactionEmojis exampleDB 2
      = [''fire'', ''heart'', ''fire'', ''heart'', ''fire'', ''heart'']"
    by (simp add: userReactionEmojis_def exampleDB_def)
  have ec: "userReactionEmojis exampleDB 3 = []"
    by (simp add: userReactionEmojis_def exampleDB_def)
  have cf: "count_list (userReactionEmojis exampleDB 2) ''fire'' = 3"
    and ch: "count_list (userReactionEmojis exampleDB 2) ''heart'' = 3"
    unfolding es by simp_all
  from C7_favorite_emoji [OF h1 h2 h3 h4]
  obtain stats where s: "getUserStatisticsHandler None exampleDB ''b'' = Inr stats"
    and mem: "ust_FavoriteEmoji stats \<in> set (userReactionEmojis exampleDB 2)"
    and tie: "\<forall>e. count_list (userReactionEmojis exampleDB 2) e
                   = count_list (userReactionEmojis exampleDB 2) (ust_FavoriteEmoji stats)
                   \<longrightarrow> e \<le> ust_FavoriteEmoji stats"
    using es by auto
  have "ust_FavoriteEmoji stats = ''fire'' \<or> ust_FavoriteEmoji stats = ''heart''"
    using mem es by auto
  moreover have "ust_FavoriteEmoji stats \<noteq> ''fire''"
  proof
    assume f: "ust_FavoriteEmoji stats = ''fire''"
    then have "''heart'' \<le> ''fire''" using tie cf ch by metis
    then show False by simp
  qed
  ultimately have fav: "ust_FavoriteEmoji stats = ''heart''" by simp
  have c1: "ust_FavoriteEmoji (projr (getUserStatisticsHandler None exampleDB ''b'')) = ''heart''"
    using s fav by simp
  from C7_favorite_emoji [OF h1 h2 h3 h5]
  obtain stats' where s': "getUserStatisticsHandler None exampleDB ''c'' = Inr stats'"
    and e': "ust_FavoriteEmoji stats' = []"
    using ec by auto
  have c2: "ust_FavoriteEmoji (projr (getUserStatisticsHandler None exampleDB ''c'')) = []"
    using s' e' by simp
  have e: "getUserStatisticsHandler None exampleDB ''b''
       = Inr \<lparr>ust_Rank = 1, ust_ViewersCount = 1, ust_TotalReactions = 6,
              ust_TotalLivecomments = 3, ust_TotalTip = 150, ust_FavoriteEmoji = ''heart''\<rparr>"
    by (simp add: exampleDB_def handler_eval query_eval rank_eval)
  show ?thesis by (intro conjI h1 h2 h3 h4 cf ch c1 e c2)
qed

subsection \<open>Tip sums that fit are exact\<close>

text \<open>
  Under \<open>tipSumsFit\<close> the total tip of every row of the two tip queries, read as a signed
  number, is the exact sum of the tips of its group: the rows are the ones the database
  returns.
\<close>

lemma sint_sum_list:
  "sint (sum_list (ws :: int64 list)) = signed_take_bit 63 (sum_list (map sint ws))"
proof (induction ws)
  case Nil
  then show ?case by simp
next
  case (Cons w ws)
  have "sint (w + sum_list ws) = signed_take_bit 63 (sint w + sint (sum_list ws))"
    by (simp add: sint_word_add)
  also have "\<dots> = signed_take_bit 63 (sint w + sum_list (map sint ws))"
    unfolding Cons.IH
    by (metis signed_take_bit_add signed_take_bit_signed_take_bit min.idem)
  finally show ?case by simp
qed

lemma sint_sum_list_exact:
  "int64Range (sum_list (map sint ws)) \<Longrightarrow> sint (sum_list (ws :: int64 list)) = sum_list (map sint ws)"
  unfolding sint_sum_list int64Range_def by (rule signed_take_bit_int_eq_self) simp_all

lemma map_sint_tips:
  "map sint [t. (k', t) \<leftarrow> j, k' = k] = [sint t. (k', t) \<leftarrow> j, k' = (k::int64)]"
  by (induction j) auto

lemma user_total_tip_exact:
  assumes "tipSumsFit db" and "r \<in> set (selectUserTotalTips db)"
  shows "sint (utt_TotalTip r) = sum_list [sint t. (k', t) \<leftarrow> userTipJoin db, k' = utt_UserID r]"
proof -
  from assms(2) obtain k where k: "k \<in> set (map fst (userTipJoin db))"
    and r: "r = \<lparr>utt_UserID = k, utt_TotalTip = sum_list [t. (k', t) \<leftarrow> userTipJoin db, k' = k]\<rparr>"
    by (auto simp: selectUserTotalTips_def)
  have "int64Range (sum_list [sint t. (k', t) \<leftarrow> userTipJoin db, k' = k])"
    using assms(1) k by (force simp: tipSumsFit_def)
  then have "int64Range (sum_list (map sint [t. (k', t) \<leftarrow> userTipJoin db, k' = k]))"
    by (simp only: map_sint_tips)
  then have "sint (sum_list [t. (k', t) \<leftarrow> userTipJoin db, k' = k])
      = sum_list (map sint [t. (k', t) \<leftarrow> userTipJoin db, k' = k])"
    by (rule sint_sum_list_exact)
  then show ?thesis by (simp only: map_sint_tips r UserTotalTip.simps)
qed

lemma livestream_total_tip_exact:
  assumes "tipSumsFit db" and "r \<in> set (selectLivestreamTotalTips db)"
  shows "sint (ltt_TotalTip r)
       = sum_list [sint t. (k', t) \<leftarrow> livestreamTipJoin db, k' = ltt_LivestreamID r]"
proof -
  from assms(2) obtain k where k: "k \<in> set (map fst (livestreamTipJoin db))"
    and r: "r = \<lparr>ltt_LivestreamID = k,
                  ltt_TotalTip = sum_list [t. (k', t) \<leftarrow> livestreamTipJoin db, k' = k]\<rparr>"
    by (auto simp: selectLivestreamTotalTips_def)
  have "int64Range (sum_list [sint t. (k', t) \<leftarrow> livestreamTipJoin db, k' = k])"
    using assms(1) k by (force simp: tipSumsFit_def)
  then have "int64Range (sum_list (map sint [t. (k', t) \<leftarrow> livestreamTipJoin db, k' = k]))"
    by (simp only: map_sint_tips)
  then have "sint (sum_list [t. (k', t) \<leftarrow> livestreamTipJoin db, k' = k])
      = sum_list (map sint [t. (k', t) \<leftarrow> livestreamTipJoin db, k' = k])"
    by (rule sint_sum_list_exact)
  then show ?thesis by (simp only: map_sint_tips r LivestreamTotalTip.simps)
qed

end
